theory Spec2Isabelle
  imports Complex_Main
begin

section \<open>JavaScript values used by the extension\<close>

text \<open>
  A JavaScript string is a sequence of UTF-16 code units; a code unit is modelled as a
  natural number, so that the character classes of the regular expressions (\<open>\d\<close>,
  \<open>\s\<close>, \<open>.\<close>) and the em dash of the unknown-size label are exactly the ones of
  the source. \<open>js ''abc''\<close> is the string of an ASCII literal.
\<close>

type_synonym code_unit = nat
type_synonym jstring = "code_unit list"

abbreviation js :: "string \<Rightarrow> jstring" where
  "js s \<equiv> map of_char s"

text \<open>The label of an unknown size: the one-character string holding an em dash (U+2014).\<close>

definition UNKNOWN :: jstring where
  "UNKNOWN = [8212]"

text \<open>
  Numbers. A JavaScript number is a double. The integers from \<open>- MAX_SAFE_INTEGER\<close> to
  \<open>MAX_SAFE_INTEGER\<close> are doubles, and dividing one of them by a power of two is
  exact; so a byte count is modelled as an \<open>int\<close> and the quotients as rationals.
  \<open>Number_toString\<close> is the conversion that \<^verbatim>\<open>bytes + ' B'\<close> applies to an
  integer-valued number: its decimal digits, after a minus sign when it is negative. This
  is the conversion of the code for an integer below \<open>10^21\<close> in absolute value; from
  \<open>10^21\<close> on JavaScript prints a number in exponent notation, which is not modelled.
\<close>

definition MAX_SAFE_INTEGER :: int where
  "MAX_SAFE_INTEGER = 2 ^ 53 - 1"

fun digits :: "nat \<Rightarrow> jstring" where
  "digits n = (if n < 10 then [48 + n] else digits (n div 10) @ [48 + n mod 10])"

declare digits.simps [simp del]

definition Number_toString :: "int \<Rightarrow> jstring" where
  "Number_toString i = (if i < 0 then 45 # digits (nat (- i)) else digits (nat i))"

text \<open>
  \<^verbatim>\<open>x.toFixed(1)\<close> for \<open>0 \<le> x < 10^21\<close>: the integer \<open>n\<close> for which \<open>n / 10 - x\<close> is
  closest to zero, the larger one on a tie, printed with one digit after the point. From
  \<open>10^21\<close> on \<^verbatim>\<open>toFixed\<close> returns the exponent notation, which is not modelled; a
  quotient of \<open>formatBytes\<close> stays below that for every byte count up to
  \<open>MAX_SAFE_INTEGER\<close>.
\<close>

definition toFixed1 :: "rat \<Rightarrow> jstring" where
  "toFixed1 x = (let n = nat \<lfloor>10 * x + 1 / 2\<rfloor> in digits (n div 10) @ [46] @ digits (n mod 10))"

subsection \<open>formatBytes\<close>

definition formatBytes :: "int \<Rightarrow> jstring" where
  "formatBytes bytes =
     (if bytes \<ge> 1024 * 1024 then toFixed1 (of_int bytes / (1024 * 1024)) @ js '' MB''
      else if bytes \<ge> 1024 then toFixed1 (of_int bytes / 1024) @ js '' kB''
      else Number_toString bytes @ js '' B'')"


subsection \<open>Regular expressions\<close>

text \<open>
  The two regular expressions of the source are written as values of \<open>rexp\<close>; a
  character class is a predicate on code units. \<^verbatim>\<open>test\<close> on a pattern anchored by
  \<^verbatim>\<open>^\<close> and \<^verbatim>\<open>$\<close> (without the \<open>m\<close> flag) succeeds exactly when the whole string
  belongs to the language of the pattern, which \<open>matches\<close> decides by derivatives.
\<close>

datatype rexp =
  Zero
  | Eps
  | Cls "code_unit \<Rightarrow> bool"
  | Seq rexp rexp
  | Alt rexp rexp
  | Star rexp

abbreviation Chr :: "char \<Rightarrow> rexp" where
  "Chr c \<equiv> Cls (\<lambda>x. x = of_char c)"

abbreviation Plus :: "rexp \<Rightarrow> rexp" where
  "Plus r \<equiv> Seq r (Star r)"

abbreviation Opt :: "rexp \<Rightarrow> rexp" where
  "Opt r \<equiv> Alt r Eps"

fun nullable :: "rexp \<Rightarrow> bool" where
  "nullable Zero = False"
| "nullable Eps = True"
| "nullable (Cls p) = False"
| "nullable (Seq r s) = (nullable r \<and> nullable s)"
| "nullable (Alt r s) = (nullable r \<or> nullable s)"
| "nullable (Star r) = True"

fun deriv :: "code_unit \<Rightarrow> rexp \<Rightarrow> rexp" where
  "deriv c Zero = Zero"
| "deriv c Eps = Zero"
| "deriv c (Cls p) = (if p c then Eps else Zero)"
| "deriv c (Seq r s) =
     (if nullable r then Alt (Seq (deriv c r) s) (deriv c s) else Seq (deriv c r) s)"
| "deriv c (Alt r s) = Alt (deriv c r) (deriv c s)"
| "deriv c (Star r) = Seq (deriv c r) (Star r)"

fun matches :: "rexp \<Rightarrow> jstring \<Rightarrow> bool" where
  "matches r [] = nullable r"
| "matches r (c # cs) = matches (deriv c r) cs"

text \<open>The language of a pattern: the meaning against which \<open>matches\<close> is checked.\<close>

definition conc :: "jstring set \<Rightarrow> jstring set \<Rightarrow> jstring set" where
  "conc A B = {u @ v | u v. u \<in> A \<and> v \<in> B}"

inductive_set star :: "jstring set \<Rightarrow> jstring set" for A :: "jstring set" where
  star_empty: "[] \<in> star A"
| star_step: "u \<in> A \<Longrightarrow> v \<in> star A \<Longrightarrow> u @ v \<in> star A"

fun lang :: "rexp \<Rightarrow> jstring set" where
  "lang Zero = {}"
| "lang Eps = {[]}"
| "lang (Cls p) = {[c] | c. p c}"
| "lang (Seq r s) = conc (lang r) (lang s)"
| "lang (Alt r s) = lang r \<union> lang s"
| "lang (Star r) = star (lang r)"

text \<open>
  The character classes of ECMAScript: \<^verbatim>\<open>\d\<close> is \<open>0\<close> to \<open>9\<close>; \<^verbatim>\<open>.\<close> (without the
  \<open>s\<close> flag) is every code unit but the four line terminators; \<^verbatim>\<open>\s\<close> is the white
  space and the line terminators.
\<close>

definition is_digit :: "code_unit \<Rightarrow> bool" where
  "is_digit c = (48 \<le> c \<and> c \<le> 57)"

definition is_line_terminator :: "code_unit \<Rightarrow> bool" where
  "is_line_terminator c = (c = 10 \<or> c = 13 \<or> c = 8232 \<or> c = 8233)"

definition is_white_space :: "code_unit \<Rightarrow> bool" where
  "is_white_space c =
     (c = 9 \<or> c = 11 \<or> c = 12 \<or> c = 32 \<or> c = 160 \<or> c = 5760 \<or> (8192 \<le> c \<and> c \<le> 8202)
      \<or> c = 8239 \<or> c = 8287 \<or> c = 12288 \<or> c = 65279 \<or> is_line_terminator c)"

subsection \<open>isExactVersion, isFileDependency, parsePackageSpec\<close>

text \<open>The pattern \<^verbatim>\<open>/^\d+\.\d+\.\d+(-[^+]+)?(\+.*)?$/\<close>.\<close>

definition EXACT_VERSION :: rexp where
  "EXACT_VERSION =
     Seq (Plus (Cls is_digit)) (Seq (Chr CHR ''.'')
    (Seq (Plus (Cls is_digit)) (Seq (Chr CHR ''.'')
    (Seq (Plus (Cls is_digit))
    (Seq (Opt (Seq (Chr CHR ''-'') (Plus (Cls (\<lambda>x. x \<noteq> of_char CHR ''+'')))))
         (Opt (Seq (Chr CHR ''+'') (Star (Cls (\<lambda>x. \<not> is_line_terminator x))))))))))"

definition isExactVersion :: "jstring \<Rightarrow> bool" where
  "isExactVersion version = (matches EXACT_VERSION version \<or> version = js ''*'')"

definition FILE_PROTOCOL :: jstring where
  "FILE_PROTOCOL = js ''file:''"

definition isFileDependency :: "jstring \<Rightarrow> bool" where
  "isFileDependency version = (take (length FILE_PROTOCOL) version = FILE_PROTOCOL)"

text \<open>\<^verbatim>\<open>s.indexOf(c, start)\<close>; \<open>None\<close> stands for \<open>-1\<close>.\<close>

definition indexOf :: "code_unit \<Rightarrow> nat \<Rightarrow> jstring \<Rightarrow> nat option" where
  "indexOf c start s =
     (if dropWhile (\<lambda>x. x \<noteq> c) (drop start s) = [] then None
      else Some (start + length (takeWhile (\<lambda>x. x \<noteq> c) (drop start s))))"

definition parsePackageSpec :: "jstring \<Rightarrow> jstring \<times> jstring" where
  "parsePackageSpec spec =
     (case indexOf (of_char CHR ''@'') 1 spec of
        None \<Rightarrow> (spec, js ''*'')
      | Some i \<Rightarrow>
          (take i spec, if drop (i + 1) spec = [] then js ''*'' else drop (i + 1) spec))"


subsection \<open>JSON values and property access\<close>

text \<open>
  What \<^verbatim>\<open>JSON.parse\<close> and \<^verbatim>\<open>res.json()\<close> return. An object is the list of its own
  properties (\<open>map_of\<close> reads one); numbers are the integer-valued ones.
\<close>

datatype json =
  JNull
  | JBool bool
  | JNum int
  | JStr jstring
  | JArr "json list"
  | JObj "(jstring \<times> json) list"

fun truthy :: "json \<Rightarrow> bool" where
  "truthy JNull = False"
| "truthy (JBool b) = b"
| "truthy (JNum n) = (n \<noteq> 0)"
| "truthy (JStr s) = (s \<noteq> [])"
| "truthy (JArr xs) = True"
| "truthy (JObj kvs) = True"

text \<open>
  Reading a property with one of the fixed names of the source (\<open>dependencies\<close>,
  \<open>versions\<close>, \<open>dist-tags\<close>, \<open>latest\<close>, \<open>dist\<close>, \<open>unpackedSize\<close>) from a value
  that is not \<open>null\<close>: none of these names is an array index, \<open>length\<close> or a member
  of a built-in prototype, so only an own property of an object is found. \<open>None\<close> is
  \<open>undefined\<close>.
\<close>

fun get_field :: "json \<Rightarrow> jstring \<Rightarrow> json option" where
  "get_field (JObj kvs) k = map_of kvs k"
| "get_field v k = None"

text \<open>
  The parts of the JavaScript runtime the extension calls. They are not code of the
  repository and are taken as parameters: \<open>JSON_parse\<close> (\<open>None\<close> when it throws a
  SyntaxError), \<open>encodeURIComponent\<close> (\<open>None\<close> when it throws a URIError, on a lone
  surrogate), \<open>toLowerCase\<close>, \<open>path.join\<close>, \<open>path.dirname\<close>, and the names that a
  plain object and an array inherit from their prototypes (\<open>constructor\<close>,
  \<open>toString\<close>, ...), which a computed key or the \<^verbatim>\<open>in\<close> operator can reach.
\<close>

record runtime =
  JSON_parse :: "jstring \<Rightarrow> json option"
  encodeURIComponent :: "jstring \<Rightarrow> jstring option"
  toLowerCase :: "jstring \<Rightarrow> jstring"
  path_join :: "jstring list \<Rightarrow> jstring"
  path_dirname :: "jstring \<Rightarrow> jstring"
  proto_object :: "jstring \<Rightarrow> bool"
  proto_array :: "jstring \<Rightarrow> bool"

text \<open>An array has the own properties \<open>0\<close>, ..., \<open>length - 1\<close> and \<open>length\<close>.\<close>

definition array_index :: "jstring \<Rightarrow> nat \<Rightarrow> nat option" where
  "array_index k n = find (\<lambda>i. digits i = k) [0..<n]"

text \<open>
  The result of \<^verbatim>\<open>versions[key]\<close>: \<open>undefined\<close>, a JSON value, or a member inherited
  from a built-in prototype (a function or the prototype object itself: truthy, and
  without a property \<open>dist\<close>).
\<close>

datatype jsval = Undefined | Val json | Builtin

fun lookup_key :: "runtime \<Rightarrow> json \<Rightarrow> jstring \<Rightarrow> jsval" where
  "lookup_key rt (JObj kvs) k =
     (case map_of kvs k of
        Some v \<Rightarrow> Val v
      | None \<Rightarrow> if proto_object rt k then Builtin else Undefined)"
| "lookup_key rt (JArr xs) k =
     (case array_index k (length xs) of
        Some i \<Rightarrow> Val (xs ! i)
      | None \<Rightarrow>
          if k = js ''length'' then Val (JNum (int (length xs)))
          else if proto_array rt k then Builtin else Undefined)"
| "lookup_key rt v k = Undefined"

fun truthy_val :: "jsval \<Rightarrow> bool" where
  "truthy_val Undefined = False"
| "truthy_val (Val v) = truthy v"
| "truthy_val Builtin = True"

text \<open>\<^verbatim>\<open>key in obj\<close>; \<open>None\<close> is the TypeError thrown when \<open>obj\<close> is not an object.\<close>

fun js_in :: "runtime \<Rightarrow> jstring \<Rightarrow> json \<Rightarrow> bool option" where
  "js_in rt k (JObj kvs) = Some (map_of kvs k \<noteq> None \<or> proto_object rt k)"
| "js_in rt k (JArr xs) =
     Some (array_index k (length xs) \<noteq> None \<or> k = js ''length'' \<or> proto_array rt k)"
| "js_in rt k v = None"

text \<open>The conversion of a value to a property key (\<open>ToString\<close>).\<close>

fun join_comma :: "jstring list \<Rightarrow> jstring" where
  "join_comma [] = []"
| "join_comma [x] = x"
| "join_comma (x # y # ys) = x @ js '','' @ join_comma (y # ys)"

fun ToString :: "json \<Rightarrow> jstring" where
  "ToString JNull = js ''null''"
| "ToString (JBool b) = (if b then js ''true'' else js ''false'')"
| "ToString (JNum n) = Number_toString n"
| "ToString (JStr s) = s"
| "ToString (JArr xs) = join_comma (map (\<lambda>x. if x = JNull then [] else ToString x) xs)"
| "ToString (JObj kvs) = js ''[object Object]''"

subsection \<open>Documents\<close>

text \<open>
  A text document of the editor: its lines (without line breaks; there is at least one),
  the line break that joins them, and its path. \<open>getText\<close>, \<open>positionAt\<close> and
  \<open>lineAt\<close> are the editor's; a position is a line and a character, both from 0.
\<close>

record document =
  doc_lines :: "jstring list"
  doc_eol :: jstring
  fsPath :: jstring
  fileName :: jstring

type_synonym position = "nat \<times> nat"
type_synonym range_t = "position \<times> position"

fun join_lines :: "jstring \<Rightarrow> jstring list \<Rightarrow> jstring" where
  "join_lines e [] = []"
| "join_lines e [l] = l"
| "join_lines e (l # m # ls) = l @ e @ join_lines e (m # ls)"

definition getText :: "document \<Rightarrow> jstring" where
  "getText doc = join_lines (doc_eol doc) (doc_lines doc)"

fun position_in :: "jstring \<Rightarrow> jstring list \<Rightarrow> nat \<Rightarrow> nat \<Rightarrow> position" where
  "position_in e [] lineNo off = (lineNo, 0)"
| "position_in e [l] lineNo off = (lineNo, min off (length l))"
| "position_in e (l # m # ls) lineNo off =
     (if off < length l + length e then (lineNo, min off (length l))
      else position_in e (m # ls) (Suc lineNo) (off - (length l + length e)))"

definition positionAt :: "document \<Rightarrow> nat \<Rightarrow> position" where
  "positionAt doc off = position_in (doc_eol doc) (doc_lines doc) 0 off"

text \<open>\<^verbatim>\<open>doc.lineAt(line).range.end\<close>; \<open>None\<close> when \<open>lineAt\<close> throws (no such line).\<close>

definition lineAt_end :: "document \<Rightarrow> nat \<Rightarrow> position option" where
  "lineAt_end doc lineNo =
     (if lineNo < length (doc_lines doc) then Some (lineNo, length (doc_lines doc ! lineNo)) else None)"

definition PACKAGE_JSON :: jstring where
  "PACKAGE_JSON = js ''package.json''"

definition endsWith :: "jstring \<Rightarrow> jstring \<Rightarrow> bool" where
  "endsWith s suffix = (length suffix \<le> length s \<and> drop (length s - length suffix) s = suffix)"

definition isPackageJson :: "runtime \<Rightarrow> document \<Rightarrow> bool" where
  "isPackageJson rt doc =
     (endsWith (toLowerCase rt (fsPath doc)) PACKAGE_JSON
      \<or> toLowerCase rt (fileName doc) = PACKAGE_JSON)"

subsection \<open>parseDepsFromDocument\<close>

record DepEntry =
  entry_name :: jstring
  entry_version :: jstring
  entry_range :: range_t

text \<open>
  One attempt of \<^verbatim>\<open>/"([^"]+)"\s*:\s*"([^"]*)"/\<close> at the start of \<open>s\<close>: the two
  groups and what follows the match. Each repetition of the pattern is ended by a
  character outside its class (\<open>"\<close> after \<^verbatim>\<open>[^"]\<close>, \<open>:\<close> and \<open>"\<close> after \<^verbatim>\<open>\s\<close>), so
  the greedy attempt is the only way the pattern can match at this position.
\<close>

definition exec_at :: "jstring \<Rightarrow> (jstring \<times> jstring \<times> jstring) option" where
  "exec_at s =
     (case s of
        [] \<Rightarrow> None
      | c # s1 \<Rightarrow>
          if c \<noteq> 34 then None
          else let key = takeWhile (\<lambda>x. x \<noteq> 34) s1; s2 = dropWhile (\<lambda>x. x \<noteq> 34) s1 in
            if key = [] \<or> s2 = [] then None
            else
              (case dropWhile is_white_space (tl s2) of
                 [] \<Rightarrow> None
               | d # s3 \<Rightarrow>
                   if d \<noteq> 58 then None
                   else
                     (case dropWhile is_white_space s3 of
                        [] \<Rightarrow> None
                      | q # s4 \<Rightarrow>
                          if q \<noteq> 34 then None
                          else let val = takeWhile (\<lambda>x. x \<noteq> 34) s4;
                                   s5 = dropWhile (\<lambda>x. x \<noteq> 34) s4 in
                            if s5 = [] then None else Some (key, val, tl s5))))"

text \<open>The pattern itself, to compare \<open>exec_at\<close> with.\<close>

definition SCAN_PATTERN :: rexp where
  "SCAN_PATTERN =
     Seq (Chr CHR 0x22) (Seq (Plus (Cls (\<lambda>x. x \<noteq> of_char CHR 0x22))) (Seq (Chr CHR 0x22)
    (Seq (Star (Cls is_white_space)) (Seq (Chr CHR '':'') (Seq (Star (Cls is_white_space))
    (Seq (Chr CHR 0x22) (Seq (Star (Cls (\<lambda>x. x \<noteq> of_char CHR 0x22))) (Chr CHR 0x22))))))))"

lemma exec_at_shorter: "exec_at s = Some (key, val, rest) \<Longrightarrow> length rest < length s"
proof -
  have dw: "length (dropWhile P xs) \<le> length xs" for P and xs :: jstring
    by (induction xs) auto
  assume "exec_at s = Some (key, val, rest)"
  then show ?thesis
    unfolding exec_at_def Let_def
    apply (simp split: list.splits if_splits)
    subgoal for c s1 d s3 q s4
      using dw [of "\<lambda>x. x \<noteq> 34" s4] dw [of is_white_space s3]
        dw [of is_white_space "tl (dropWhile (\<lambda>x. x \<noteq> 34) s1)"] dw [of "\<lambda>x. x \<noteq> 34" s1]
      by (cases "dropWhile (\<lambda>x. x \<noteq> 34) s1"; cases "dropWhile (\<lambda>x. x \<noteq> 34) s4") auto
    done
qed

text \<open>
  The loop \<^verbatim>\<open>while ((m = re.exec(text)) !== null)\<close> of a global pattern: the matches
  from left to right, each search starting where the previous match ended. A match is
  its index \<^verbatim>\<open>m.index\<close> and its groups \<^verbatim>\<open>m[1]\<close>, \<^verbatim>\<open>m[2]\<close>; \<open>scan i s\<close> scans the
  rest \<open>s\<close> of the text that starts at offset \<open>i\<close>.
\<close>

function scan :: "nat \<Rightarrow> jstring \<Rightarrow> (nat \<times> jstring \<times> jstring) list" where
  "scan i [] = []"
| "scan i (c # cs) =
     (case exec_at (c # cs) of
        None \<Rightarrow> scan (Suc i) cs
      | Some (key, val, rest) \<Rightarrow> (i, key, val) # scan (i + (length (c # cs) - length rest)) rest)"
  by pat_completeness auto
termination
  by (relation "measure (\<lambda>(i, s). length s)") (auto dest: exec_at_shorter)

text \<open>\<^verbatim>\<open>json.dependencies || {}\<close>.\<close>

definition or_empty :: "json option \<Rightarrow> json" where
  "or_empty v = (case v of None \<Rightarrow> JObj [] | Some j \<Rightarrow> if truthy j then j else JObj [])"

definition make_entry :: "document \<Rightarrow> nat \<times> jstring \<times> jstring \<Rightarrow> DepEntry option" where
  "make_entry doc m =
     (case m of (index, key, val) \<Rightarrow>
        (case lineAt_end doc (fst (positionAt doc index)) of
           None \<Rightarrow> None
         | Some lineEnd \<Rightarrow>
             Some \<lparr>entry_name = key,
                   entry_version = (if val = [] then js ''*'' else val),
                   entry_range = (lineEnd, lineEnd)\<rparr>))"

text \<open>
  The body of the loop over the matches. An exception (the TypeError of \<^verbatim>\<open>in\<close> on a
  value that is not an object) leaves the loop for the \<^verbatim>\<open>catch\<close> block, which keeps
  what has been pushed so far.
\<close>

fun collect ::
  "runtime \<Rightarrow> document \<Rightarrow> json \<Rightarrow> json \<Rightarrow> (nat \<times> jstring \<times> jstring) list
     \<Rightarrow> DepEntry list \<times> DepEntry list \<Rightarrow> DepEntry list \<times> DepEntry list" where
  "collect rt doc dependencies devDependencies [] acc = acc"
| "collect rt doc dependencies devDependencies (m # ms) (deps, devDeps) =
     (case js_in rt (fst (snd m)) dependencies of
        None \<Rightarrow> (deps, devDeps)
      | Some True \<Rightarrow>
          (case make_entry doc m of
             None \<Rightarrow> (deps, devDeps)
           | Some e \<Rightarrow> collect rt doc dependencies devDependencies ms (deps @ [e], devDeps))
      | Some False \<Rightarrow>
          (case js_in rt (fst (snd m)) devDependencies of
             None \<Rightarrow> (deps, devDeps)
           | Some True \<Rightarrow>
               (case make_entry doc m of
                  None \<Rightarrow> (deps, devDeps)
                | Some e \<Rightarrow> collect rt doc dependencies devDependencies ms (deps, devDeps @ [e]))
           | Some False \<Rightarrow> collect rt doc dependencies devDependencies ms (deps, devDeps)))"

definition parseDepsFromDocument :: "runtime \<Rightarrow> document \<Rightarrow> DepEntry list \<times> DepEntry list" where
  "parseDepsFromDocument rt doc =
     (let text = getText doc in
      case JSON_parse rt text of
        None \<Rightarrow> ([], [])
      | Some JNull \<Rightarrow> ([], [])
      | Some json \<Rightarrow>
          collect rt doc (or_empty (get_field json (js ''dependencies'')))
            (or_empty (get_field json (js ''devDependencies''))) (scan 0 text) ([], []))"









subsection \<open>The registry, the file system and the cache\<close>

text \<open>
  What the world outside answers. \<open>fetch w url\<close> is the outcome of \<^verbatim>\<open>fetch(url)\<close>: the
  promise rejects, or there is a response with its \<^verbatim>\<open>ok\<close> flag and the value of
  \<^verbatim>\<open>res.json()\<close> (\<open>None\<close> when that rejects: the body is not JSON). \<open>fs_stat w p\<close> is
  the outcome of \<^verbatim>\<open>fs.stat(p)\<close> (\<open>None\<close> when it rejects): a file with its size, a
  directory, or something else. The contents of a directory are the tree of what
  \<^verbatim>\<open>fs.readdir\<close> and \<^verbatim>\<open>fs.stat\<close> answer below it: an entry for which
  \<^verbatim>\<open>ent.isDirectory()\<close> holds carries the listing of \<^verbatim>\<open>readdir\<close> on it, any other entry
  the \<^verbatim>\<open>size\<close> that \<^verbatim>\<open>stat\<close> reports for it; \<open>None\<close> is a call that rejects.
\<close>

datatype response = Rejected | Response bool "json option"

datatype fsnode =
  FsDir "(jstring \<times> fsnode) list option"
  | FsOther "nat option"

datatype stats =
  StatFile nat
  | StatDirectory "(jstring \<times> fsnode) list option"
  | StatOther

record world =
  fetch :: "jstring \<Rightarrow> response"
  fs_stat :: "jstring \<Rightarrow> stats option"
  config_enabled :: bool

text \<open>What a run does to the outside, in order.\<close>

datatype event =
  Parse
  | Fetch jstring
  | FsStat jstring
  | FsReaddir jstring
  | SetDecorations nat "range_t list"

type_synonym cache = "jstring \<rightharpoonup> jstring"

text \<open>
  An \<^verbatim>\<open>async\<close> function runs synchronously up to its first \<^verbatim>\<open>await\<close>. A call of a
  resolver therefore either returns at once (\<open>Now\<close>: a cache hit or an early return),
  throws (\<open>Raised\<close>: the promise is rejected), or is left pending (\<open>Later key text evs\<close>):
  it has read the cache, will perform the operations \<open>evs\<close>, then store \<open>text\<close> under
  \<open>key\<close> and resolve to \<open>text\<close>. Nothing after the first \<^verbatim>\<open>await\<close> reads the cache.
\<close>

datatype outcome =
  Now jstring
  | Raised
  | Later jstring jstring "event list"

fun result_of :: "outcome \<Rightarrow> jstring option" where
  "result_of (Now text) = Some text"
| "result_of Raised = None"
| "result_of (Later key text evs) = Some text"

fun text_of :: "outcome \<Rightarrow> jstring" where
  "text_of (Now text) = text"
| "text_of (Later key text evs) = text"
| "text_of Raised = []"

fun events_of :: "outcome \<Rightarrow> event list" where
  "events_of (Later key text evs) = evs"
| "events_of out = []"

fun settle :: "outcome \<Rightarrow> cache \<Rightarrow> cache" where
  "settle (Later key text evs) c = c(key \<mapsto> text)"
| "settle out c = c"

subsection \<open>getDirSize and getNodeModulesPackageSize\<close>

function (sequential) getDirSize ::
    "runtime \<Rightarrow> jstring \<Rightarrow> (jstring \<times> fsnode) list option \<Rightarrow> event list \<times> nat option"
  and dir_entries ::
    "runtime \<Rightarrow> jstring \<Rightarrow> (jstring \<times> fsnode) list \<Rightarrow> nat \<Rightarrow> event list \<times> nat option"
where
  "getDirSize rt dirPath None = ([FsReaddir dirPath], None)"
| "getDirSize rt dirPath (Some entries) =
     (case dir_entries rt dirPath entries 0 of (evs, r) \<Rightarrow> (FsReaddir dirPath # evs, r))"
| "dir_entries rt dirPath [] acc = ([], Some acc)"
| "dir_entries rt dirPath ((ent_name, FsDir listing) # ents) acc =
     (case getDirSize rt (path_join rt [dirPath, ent_name]) listing of
        (evs, None) \<Rightarrow> (evs, None)
      | (evs, Some n) \<Rightarrow>
          (case dir_entries rt dirPath ents (acc + n) of (evs', r) \<Rightarrow> (evs @ evs', r)))"
| "dir_entries rt dirPath ((ent_name, FsOther st) # ents) acc =
     (case st of
        None \<Rightarrow> ([FsStat (path_join rt [dirPath, ent_name])], None)
      | Some sz \<Rightarrow>
          (case dir_entries rt dirPath ents (acc + sz) of
             (evs', r) \<Rightarrow> (FsStat (path_join rt [dirPath, ent_name]) # evs', r)))"
  by pat_completeness auto
termination
  by (relation "measure (\<lambda>x. case x of
        Inl (rt, p, l) \<Rightarrow> size_option (size_list (size_prod (\<lambda>_. 0) size)) l
      | Inr (rt, p, ents, acc) \<Rightarrow> size_list (size_prod (\<lambda>_. 0) size) ents)") auto

text \<open>\<^verbatim>\<open>s.split(c)\<close> for a separator of one code unit.\<close>

fun split_on :: "code_unit \<Rightarrow> jstring \<Rightarrow> jstring list" where
  "split_on c [] = [[]]"
| "split_on c (x # xs) =
     (if x = c then [] # split_on c xs
      else (case split_on c xs of [] \<Rightarrow> [[x]] | p # ps \<Rightarrow> (x # p) # ps))"

definition install_path :: "runtime \<Rightarrow> jstring \<Rightarrow> jstring \<Rightarrow> jstring" where
  "install_path rt docDir packageName =
     (let parts = (if take 1 packageName = js ''@'' then split_on (of_char CHR ''/'') packageName
                   else [packageName])
      in path_join rt ([docDir, js ''node_modules''] @ parts))"

text \<open>The key \<^verbatim>\<open>`node_modules:${path.join(docDir, 'node_modules', packageName)}`\<close>.\<close>

definition node_modules_key :: "runtime \<Rightarrow> jstring \<Rightarrow> jstring \<Rightarrow> jstring" where
  "node_modules_key rt docDir packageName =
     js ''node_modules:'' @ path_join rt [docDir, js ''node_modules'', packageName]"

definition getNodeModulesPackageSize_call ::
  "runtime \<Rightarrow> world \<Rightarrow> cache \<Rightarrow> jstring \<Rightarrow> jstring \<Rightarrow> outcome \<times> cache" where
  "getNodeModulesPackageSize_call rt w c docDir packageName =
     (let cacheKey = node_modules_key rt docDir packageName in
      case c cacheKey of
        Some cached \<Rightarrow> (Now cached, c)
      | None \<Rightarrow>
          (let installPath = install_path rt docDir packageName in
           case fs_stat w installPath of
             None \<Rightarrow> (Later cacheKey UNKNOWN [FsStat installPath], c)
           | Some (StatFile sz) \<Rightarrow>
               (Later cacheKey (formatBytes (int sz)) [FsStat installPath], c)
           | Some (StatDirectory listing) \<Rightarrow>
               (case getDirSize rt installPath listing of
                  (evs, None) \<Rightarrow> (Later cacheKey UNKNOWN (FsStat installPath # evs), c)
                | (evs, Some acc) \<Rightarrow>
                    (Later cacheKey (formatBytes (int acc)) (FsStat installPath # evs), c))
           | Some StatOther \<Rightarrow> (Later cacheKey UNKNOWN [FsStat installPath], c)))"

text \<open>
  For the statement of what \<open>getDirSize\<close> computes: whether some \<^verbatim>\<open>readdir\<close> or
  \<^verbatim>\<open>stat\<close> rejects anywhere in a tree, and the sizes of all the files of a tree, at
  any depth.
\<close>

function (sequential) listing_fails :: "(jstring \<times> fsnode) list option \<Rightarrow> bool"
  and entries_fail :: "(jstring \<times> fsnode) list \<Rightarrow> bool"
where
  "listing_fails None = True"
| "listing_fails (Some entries) = entries_fail entries"
| "entries_fail [] = False"
| "entries_fail ((ent_name, FsDir listing) # ents) = (listing_fails listing \<or> entries_fail ents)"
| "entries_fail ((ent_name, FsOther st) # ents) = (st = None \<or> entries_fail ents)"
  by pat_completeness auto
termination
  by (relation "measure (\<lambda>x. case x of
        Inl l \<Rightarrow> size_option (size_list (size_prod (\<lambda>_. 0) size)) l
      | Inr ents \<Rightarrow> size_list (size_prod (\<lambda>_. 0) size) ents)") auto

function (sequential) listing_files :: "(jstring \<times> fsnode) list option \<Rightarrow> nat list"
  and entries_files :: "(jstring \<times> fsnode) list \<Rightarrow> nat list"
where
  "listing_files None = []"
| "listing_files (Some entries) = entries_files entries"
| "entries_files [] = []"
| "entries_files ((ent_name, FsDir listing) # ents) = listing_files listing @ entries_files ents"
| "entries_files ((ent_name, FsOther st) # ents) =
     (case st of None \<Rightarrow> [] | Some sz \<Rightarrow> [sz]) @ entries_files ents"
  by pat_completeness auto
termination
  by (relation "measure (\<lambda>x. case x of
        Inl l \<Rightarrow> size_option (size_list (size_prod (\<lambda>_. 0) size)) l
      | Inr ents \<Rightarrow> size_list (size_prod (\<lambda>_. 0) size) ents)") auto

subsection \<open>fetchSize\<close>

definition NPM_REGISTRY :: jstring where
  "NPM_REGISTRY = js ''https://registry.npmjs.org''"

text \<open>\<^verbatim>\<open>ver?.dist?.unpackedSize\<close>; \<open>None\<close> is \<open>undefined\<close>.\<close>

definition unpackedSize_of :: "jsval \<Rightarrow> json option" where
  "unpackedSize_of ver =
     (case ver of
        Val v \<Rightarrow>
          if v = JNull then None
          else (case get_field v (js ''dist'') of
                  None \<Rightarrow> None
                | Some d \<Rightarrow> if d = JNull then None else get_field d (js ''unpackedSize''))
      | other \<Rightarrow> None)"

text \<open>
  \<^verbatim>\<open>if (bytes == null || typeof bytes !== 'number') return unknown; return formatBytes(bytes)\<close>.
\<close>

definition size_text :: "json option \<Rightarrow> jstring" where
  "size_text bytes = (case bytes of Some (JNum n) \<Rightarrow> formatBytes n | other \<Rightarrow> UNKNOWN)"



text \<open>What the call makes of the response for one exact version.\<close>

definition exact_result :: "response \<Rightarrow> jstring" where
  "exact_result res =
     (case res of
        Rejected \<Rightarrow> UNKNOWN
      | Response ok body \<Rightarrow>
          if \<not> ok then UNKNOWN
          else (case body of
                  None \<Rightarrow> UNKNOWN
                | Some data \<Rightarrow> size_text (unpackedSize_of (Val data))))"

text \<open>\<^verbatim>\<open>typeof v === 'object'\<close>.\<close>

fun typeof_object :: "json \<Rightarrow> bool" where
  "typeof_object JNull = True"
| "typeof_object (JArr xs) = True"
| "typeof_object (JObj kvs) = True"
| "typeof_object v = False"

text \<open>\<^verbatim>\<open>data['dist-tags']?.latest\<close>.\<close>

definition latest_tag :: "json \<Rightarrow> json option" where
  "latest_tag data =
     (case get_field data (js ''dist-tags'') of
        None \<Rightarrow> None
      | Some tags \<Rightarrow> if tags = JNull then None else get_field tags (js ''latest''))"

text \<open>The property key \<^verbatim>\<open>data['dist-tags']?.latest ?? ''\<close>.\<close>

definition latest_key :: "json \<Rightarrow> jstring" where
  "latest_key data =
     (case latest_tag data of None \<Rightarrow> [] | Some l \<Rightarrow> if l = JNull then [] else ToString l)"

text \<open>
  What the call makes of the response for the full metadata of a package. Reading
  \<^verbatim>\<open>data.versions\<close> from \<open>null\<close> throws, which the \<^verbatim>\<open>catch\<close> block turns into the
  unknown label.
\<close>

definition metadata_result :: "runtime \<Rightarrow> jstring \<Rightarrow> response \<Rightarrow> jstring" where
  "metadata_result rt version res =
     (case res of
        Rejected \<Rightarrow> UNKNOWN
      | Response ok body \<Rightarrow>
          if \<not> ok then UNKNOWN
          else (case body of
                  None \<Rightarrow> UNKNOWN
                | Some data \<Rightarrow>
                    if data = JNull then UNKNOWN
                    else (case get_field data (js ''versions'') of
                            None \<Rightarrow> UNKNOWN
                          | Some versions \<Rightarrow>
                              if \<not> truthy versions \<or> \<not> typeof_object versions then UNKNOWN
                              else
                                (let latest = latest_tag data;
                                     versionToUse =
                                       (if version = [] \<or> version = js ''*'' then latest
                                        else Some (JStr version));
                                     by_latest = lookup_key rt versions (latest_key data);
                                     ver =
                                       (case versionToUse of
                                          None \<Rightarrow> by_latest
                                        | Some k \<Rightarrow>
                                            if truthy k
                                               \<and> truthy_val (lookup_key rt versions (ToString k))
                                            then lookup_key rt versions (ToString k)
                                            else by_latest)
                                 in size_text (unpackedSize_of ver)))))"

definition fetchSize_call :: "runtime \<Rightarrow> world \<Rightarrow> cache \<Rightarrow> jstring \<Rightarrow> outcome \<times> cache" where
  "fetchSize_call rt w c packageSpec =
     (case c packageSpec of
        Some cached \<Rightarrow> (Now cached, c)
      | None \<Rightarrow>
          (case parsePackageSpec packageSpec of
             (pkg, version) \<Rightarrow>
               if pkg = [] then (Now UNKNOWN, c(packageSpec \<mapsto> UNKNOWN))
               else
                 (let useExact = (version \<noteq> [] \<and> version \<noteq> js ''*'' \<and> isExactVersion version) in
                  case encodeURIComponent rt pkg of
                    None \<Rightarrow> (Raised, c)
                  | Some encodedName \<Rightarrow>
                      if useExact then
                        (case encodeURIComponent rt version of
                           None \<Rightarrow> (Now UNKNOWN, c(packageSpec \<mapsto> UNKNOWN))
                         | Some encodedVersion \<Rightarrow>
                             (let url = NPM_REGISTRY @ js ''/'' @ encodedName @ js ''/'' @ encodedVersion
                              in (Later packageSpec (exact_result (fetch w url)) [Fetch url], c)))
                      else
                        (let url = NPM_REGISTRY @ js ''/'' @ encodedName
                         in (Later packageSpec (metadata_result rt version (fetch w url))
                               [Fetch url], c)))))"

text \<open>
  A resolution run to its end on its own: the result (\<open>None\<close> when the call throws), the
  cache afterwards, and the operations performed.
\<close>

definition complete :: "outcome \<times> cache \<Rightarrow> jstring option \<times> cache \<times> event list" where
  "complete oc = (case oc of (out, c) \<Rightarrow> (result_of out, settle out c, events_of out))"

definition fetchSize ::
  "runtime \<Rightarrow> world \<Rightarrow> cache \<Rightarrow> jstring \<Rightarrow> jstring option \<times> cache \<times> event list" where
  "fetchSize rt w c packageSpec = complete (fetchSize_call rt w c packageSpec)"

definition getNodeModulesPackageSize ::
  "runtime \<Rightarrow> world \<Rightarrow> cache \<Rightarrow> jstring \<Rightarrow> jstring \<Rightarrow> jstring option \<times> cache \<times> event list" where
  "getNodeModulesPackageSize rt w c docDir packageName =
     complete (getNodeModulesPackageSize_call rt w c docDir packageName)"


subsection \<open>Decoration types and updateDecorations\<close>

text \<open>
  The two module-level maps, with the decoration types the editor has created for the
  extension: a decoration type is the number the editor gave it, in order of creation.
  \<open>decorationTypeCache\<close> keeps the insertion order of a \<^verbatim>\<open>Map\<close>. An editor is its
  document and, for each decoration type, the ranges where the type is painted.
\<close>

record extension_state =
  sizeCache :: cache
  decorationTypeCache :: "(jstring \<times> nat) list"
  subscriptions :: "nat list"
  types_created :: nat

record editor =
  document :: document
  decorations :: "nat \<Rightarrow> range_t list"

definition setDecorations :: "editor \<Rightarrow> nat \<Rightarrow> range_t list \<Rightarrow> editor" where
  "setDecorations ed t ranges = ed\<lparr>decorations := (decorations ed)(t := ranges)\<rparr>"

definition getDecorationType :: "jstring \<Rightarrow> extension_state \<Rightarrow> nat \<times> extension_state" where
  "getDecorationType sizeText st =
     (case map_of (decorationTypeCache st) sizeText of
        Some t \<Rightarrow> (t, st)
      | None \<Rightarrow>
          (let t = types_created st in
           (t, st\<lparr>decorationTypeCache := decorationTypeCache st @ [(sizeText, t)],
                  subscriptions := subscriptions st @ [t],
                  types_created := Suc t\<rparr>)))"

text \<open>The callback of \<^verbatim>\<open>all.map\<close>: the call made for one entry.\<close>

definition package_spec :: "DepEntry \<Rightarrow> jstring" where
  "package_spec d =
     (if entry_version d \<noteq> [] \<and> entry_version d \<noteq> js ''*''
      then entry_name d @ js ''@'' @ entry_version d else entry_name d)"

definition resolve_call ::
  "runtime \<Rightarrow> world \<Rightarrow> jstring \<Rightarrow> cache \<Rightarrow> DepEntry \<Rightarrow> outcome \<times> cache" where
  "resolve_call rt w docDir c d =
     (if isFileDependency (entry_version d)
      then getNodeModulesPackageSize_call rt w c docDir (entry_name d)
      else fetchSize_call rt w c (package_spec d))"

text \<open>
  \<^verbatim>\<open>all.map\<close> makes the calls one after the other, each up to its first \<^verbatim>\<open>await\<close>; only
  then can a pending call go on. So every call of a pass reads the cache before any
  pending call of the pass has stored its result.
\<close>

fun start_all ::
  "runtime \<Rightarrow> world \<Rightarrow> jstring \<Rightarrow> DepEntry list \<Rightarrow> cache \<Rightarrow> outcome list \<times> cache" where
  "start_all rt w docDir [] c = ([], c)"
| "start_all rt w docDir (d # ds) c =
     (case resolve_call rt w docDir c d of
        (out, c') \<Rightarrow>
          (case start_all rt w docDir ds c' of (outs, c'') \<Rightarrow> (out # outs, c'')))"

text \<open>The loop that fills \<open>bySize\<close>, a \<^verbatim>\<open>Map\<close> in insertion order.\<close>

fun upsert ::
  "jstring \<Rightarrow> range_t \<Rightarrow> (jstring \<times> range_t list) list \<Rightarrow> (jstring \<times> range_t list) list" where
  "upsert k r [] = [(k, [r])]"
| "upsert k r ((k', rs) # g) = (if k' = k then (k', rs @ [r]) # g else (k', rs) # upsert k r g)"

fun group_by_size ::
  "(jstring \<times> range_t) list \<Rightarrow> (jstring \<times> range_t list) list \<Rightarrow> (jstring \<times> range_t list) list" where
  "group_by_size [] bySize = bySize"
| "group_by_size ((sizeText, r) # rest) bySize = group_by_size rest (upsert sizeText r bySize)"

fun paint_groups ::
  "(jstring \<times> range_t list) list \<Rightarrow> extension_state \<Rightarrow> editor
     \<Rightarrow> extension_state \<times> editor \<times> event list" where
  "paint_groups [] st ed = (st, ed, [])"
| "paint_groups ((sizeText, ranges) # gs) st ed =
     (case getDecorationType sizeText st of
        (t, st') \<Rightarrow>
          (case paint_groups gs st' (setDecorations ed t ranges) of
             (st'', ed'', evs) \<Rightarrow> (st'', ed'', SetDecorations t ranges # evs)))"

fun clear_unused :: "(jstring \<times> nat) list \<Rightarrow> jstring list \<Rightarrow> editor \<Rightarrow> editor \<times> event list" where
  "clear_unused [] typesUsed ed = (ed, [])"
| "clear_unused ((cachedText, t) # ts) typesUsed ed =
     (if cachedText \<notin> set typesUsed
      then (case clear_unused ts typesUsed (setDecorations ed t []) of
              (ed', evs) \<Rightarrow> (ed', SetDecorations t [] # evs))
      else clear_unused ts typesUsed ed)"

text \<open>
  One run of \<open>updateDecorations\<close>: the state and the editor afterwards, what the run did,
  and whether its promise is fulfilled (it is rejected when a call of the pass throws:
  \<^verbatim>\<open>Promise.all\<close> rejects and nothing is painted, while the pending calls still store
  their results). The pending calls of a pass are completed in the order of the calls,
  and \<open>pass_events\<close> lists their operations one call after the other. In the code the
  first operation of every pending call is issued before any call continues, and the
  later operations of different calls interleave as the host completes them: the
  operations of one call are in their order here, the order between calls is not
  modelled. Every \<open>setDecorations\<close> follows all of them, as after \<^verbatim>\<open>Promise.all\<close>.
\<close>

record pass =
  pass_state :: extension_state
  pass_editor :: editor
  pass_events :: "event list"
  pass_fulfilled :: bool

definition updateDecorations :: "runtime \<Rightarrow> world \<Rightarrow> extension_state \<Rightarrow> editor \<Rightarrow> pass" where
  "updateDecorations rt w st ed =
     (if \<not> config_enabled w then
        \<lparr>pass_state = st, pass_editor = ed, pass_events = [], pass_fulfilled = True\<rparr>
      else if \<not> isPackageJson rt (document ed) then
        \<lparr>pass_state = st, pass_editor = ed, pass_events = [], pass_fulfilled = True\<rparr>
      else
        (case parseDepsFromDocument rt (document ed) of
           (deps, devDeps) \<Rightarrow>
             (let all = deps @ devDeps in
              if all = [] then
                \<lparr>pass_state = st, pass_editor = ed, pass_events = [Parse], pass_fulfilled = True\<rparr>
              else
                (let docDir = path_dirname rt (fsPath (document ed)) in
                 case start_all rt w docDir all (sizeCache st) of
                   (outs, c1) \<Rightarrow>
                     (let st1 = st\<lparr>sizeCache := foldl (\<lambda>c out. settle out c) c1 outs\<rparr>;
                          io = concat (map events_of outs) in
                      if Raised \<in> set outs then
                        \<lparr>pass_state = st1, pass_editor = ed, pass_events = Parse # io,
                          pass_fulfilled = False\<rparr>
                      else
                        (let sizes = map text_of outs;
                             bySize = group_by_size (zip sizes (map entry_range all)) [] in
                         case paint_groups bySize st1 ed of
                           (st2, ed2, painted) \<Rightarrow>
                             (case clear_unused (decorationTypeCache st2) (map fst bySize) ed2 of
                                (ed3, cleared) \<Rightarrow>
                                  \<lparr>pass_state = st2, pass_editor = ed3,
                                    pass_events = Parse # io @ painted @ cleared,
                                    pass_fulfilled = True\<rparr>)))))))"

text \<open>
  For the statement of what a pass paints: the anchors of the entries with a given label,
  the decoration type cached for a label, the SetDecorations events, and the states in
  which the cached decoration types are as \<open>getDecorationType\<close> makes them (one type per
  label, all of them created by the editor). The initial state is such a state, and a
  pass leads from such a state to such a state.
\<close>

definition anchors_of :: "(jstring \<times> range_t) list \<Rightarrow> jstring \<Rightarrow> range_t list" where
  "anchors_of pairs k = map snd (filter (\<lambda>p. fst p = k) pairs)"

definition type_of :: "(jstring \<times> nat) list \<Rightarrow> jstring \<Rightarrow> nat" where
  "type_of types k = (case map_of types k of Some t \<Rightarrow> t | None \<Rightarrow> 0)"

definition well_formed :: "extension_state \<Rightarrow> bool" where
  "well_formed st =
     (distinct (map fst (decorationTypeCache st)) \<and> distinct (map snd (decorationTypeCache st))
      \<and> (\<forall>t \<in> snd ` set (decorationTypeCache st). t < types_created st))"

fun is_SetDecorations :: "event \<Rightarrow> bool" where
  "is_SetDecorations (SetDecorations t ranges) = True"
| "is_SetDecorations e = False"

definition clearAllDecorations :: "extension_state \<Rightarrow> editor \<Rightarrow> editor \<times> event list" where
  "clearAllDecorations st ed = clear_unused (decorationTypeCache st) [] ed"

text \<open>\<open>deactivate\<close> disposes of the decoration types and empties both maps.\<close>

definition deactivate :: "extension_state \<Rightarrow> extension_state" where
  "deactivate st = st\<lparr>decorationTypeCache := [], sizeCache := Map.empty\<rparr>"


subsection \<open>Sample inputs\<close>

text \<open>
  A runtime, a registry and a file system on which the model is run in the examples
  below. The runtime behaves as Node.js does on the ASCII strings of the examples:
  \<open>encodeURIComponent\<close> keeps the unreserved characters and escapes the other ASCII
  ones, paths are joined with \<open>/\<close>, and \<open>JSON_parse\<close> knows the sample manifests.
\<close>

definition OBJECT_PROTOTYPE :: "jstring list" where
  "OBJECT_PROTOTYPE =
     [js ''constructor'', js ''hasOwnProperty'', js ''isPrototypeOf'',
      js ''propertyIsEnumerable'', js ''toLocaleString'', js ''toString'', js ''valueOf'',
      js ''__proto__'', js ''__defineGetter__'', js ''__defineSetter__'',
      js ''__lookupGetter__'', js ''__lookupSetter__'']"

definition uri_unreserved :: "code_unit \<Rightarrow> bool" where
  "uri_unreserved c =
     ((65 \<le> c \<and> c \<le> 90) \<or> (97 \<le> c \<and> c \<le> 122) \<or> (48 \<le> c \<and> c \<le> 57)
      \<or> c \<in> set (js ''-_.!~*()'') \<or> c = 39)"

definition hex_digit :: "nat \<Rightarrow> code_unit" where
  "hex_digit d = (if d < 10 then 48 + d else 55 + d)"

definition ascii_encodeURIComponent :: "jstring \<Rightarrow> jstring option" where
  "ascii_encodeURIComponent s =
     (if \<exists>c \<in> set s. 128 \<le> c then None
      else Some (concat (map (\<lambda>c. if uri_unreserved c then [c]
                                   else [37, hex_digit (c div 16), hex_digit (c mod 16)]) s)))"

definition ascii_toLowerCase :: "jstring \<Rightarrow> jstring" where
  "ascii_toLowerCase s = map (\<lambda>c. if 65 \<le> c \<and> c \<le> 90 then c + 32 else c) s"

fun join_slash :: "jstring list \<Rightarrow> jstring" where
  "join_slash [] = js ''.''"
| "join_slash [p] = p"
| "join_slash (p # q # ps) = p @ js ''/'' @ join_slash (q # ps)"

definition dirname_slash :: "jstring \<Rightarrow> jstring" where
  "dirname_slash p = rev (drop 1 (dropWhile (\<lambda>c. c \<noteq> 47) (rev p)))"

definition LODASH_MANIFEST :: jstring where
  "LODASH_MANIFEST = js ''{\"dependencies\":{\"lodash\":\"4.17.21\"}}''"

definition TWO_LINE_MANIFEST :: "jstring list" where
  "TWO_LINE_MANIFEST =
     [js ''{\"dependencies\":{\"lodash\":\"4.17.21\",\"left-pad\":\"\"},'',
      js '' \"devDependencies\":{\"lodash\":\"^4.0.0\",\"jest\":\"*\"}}'']"

definition DUPLICATE_MANIFEST :: jstring where
  "DUPLICATE_MANIFEST = js ''{\"dependencies\":{\"a\":\"1.0.0\"},\"devDependencies\":{\"a\":\"1.0.0\"}}''"

definition BROKEN_MANIFEST :: jstring where
  "BROKEN_MANIFEST = js ''{\"dependencies\":{\"lodash\":''"

definition TWO_LINE_JSON :: json where
  "TWO_LINE_JSON =
     JObj [(js ''dependencies'',
              JObj [(js ''lodash'', JStr (js ''4.17.21'')), (js ''left-pad'', JStr [])]),
           (js ''devDependencies'',
              JObj [(js ''lodash'', JStr (js ''^4.0.0'')), (js ''jest'', JStr (js ''*''))])]"

definition EMPTY_MANIFEST :: jstring where
  "EMPTY_MANIFEST = js ''{}''"

definition INHERITED_KEY_MANIFEST :: jstring where
  "INHERITED_KEY_MANIFEST = js ''{\"dependencies\":{},\"scripts\":{\"toString\":\"x\"}}''"

definition STRING_MAP_MANIFEST :: jstring where
  "STRING_MAP_MANIFEST =
     js ''{\"dependencies\":{\"a\":\"1\"},\"devDependencies\":\"oops\",\"zz\":\"1\",\"a\":\"2\"}''"

definition STRING_MAP_JSON :: json where
  "STRING_MAP_JSON =
     JObj [(js ''dependencies'', JObj [(js ''a'', JStr (js ''1''))]),
           (js ''devDependencies'', JStr (js ''oops'')),
           (js ''zz'', JStr (js ''1'')),
           (js ''a'', JStr (js ''2''))]"

definition sample_manifests :: "(jstring \<times> json) list" where
  "sample_manifests =
     [(LODASH_MANIFEST,
       JObj [(js ''dependencies'', JObj [(js ''lodash'', JStr (js ''4.17.21''))])]),
      (join_lines [10] TWO_LINE_MANIFEST, TWO_LINE_JSON),
      (DUPLICATE_MANIFEST,
       JObj [(js ''dependencies'', JObj [(js ''a'', JStr (js ''1.0.0''))]),
             (js ''devDependencies'', JObj [(js ''a'', JStr (js ''1.0.0''))])]),
      (INHERITED_KEY_MANIFEST,
       JObj [(js ''dependencies'', JObj []),
             (js ''scripts'', JObj [(js ''toString'', JStr (js ''x''))])]),
      (EMPTY_MANIFEST, JObj []),
      (STRING_MAP_MANIFEST, STRING_MAP_JSON)]"

definition sample_runtime :: runtime where
  "sample_runtime =
     \<lparr>JSON_parse = map_of sample_manifests,
      encodeURIComponent = ascii_encodeURIComponent,
      toLowerCase = ascii_toLowerCase,
      path_join = join_slash,
      path_dirname = dirname_slash,
      proto_object = (\<lambda>k. k \<in> set OBJECT_PROTOTYPE),
      proto_array = (\<lambda>k. k \<in> set OBJECT_PROTOTYPE)\<rparr>"

definition manifest_document :: "jstring list \<Rightarrow> document" where
  "manifest_document ls =
     \<lparr>doc_lines = ls, doc_eol = [10], fsPath = js ''/proj/package.json'',
      fileName = js ''/proj/package.json''\<rparr>"

definition LODASH_VERSION :: json where
  "LODASH_VERSION = JObj [(js ''dist'', JObj [(js ''unpackedSize'', JNum 1434895)])]"

definition LODASH_METADATA :: json where
  "LODASH_METADATA =
     JObj [(js ''dist-tags'', JObj [(js ''latest'', JStr (js ''4.17.21''))]),
           (js ''versions'',
              JObj [(js ''4.17.20'', JObj [(js ''dist'', JObj [(js ''unpackedSize'', JNum 1409900)])]),
                    (js ''4.17.21'', LODASH_VERSION)])]"

definition LEGACY_METADATA :: json where
  "LEGACY_METADATA =
     JObj [(js ''dist-tags'', JObj [(js ''latest'', JStr (js ''1.0.1''))]),
           (js ''versions'',
              JObj [(js ''1.0'', JObj [(js ''dist'', JObj [(js ''unpackedSize'', JNum 500)])]),
                    (js ''1.0.1'', JObj [(js ''dist'', JObj [(js ''unpackedSize'', JNum 2048)])])])]"

definition LEFT_PAD_TREE :: "(jstring \<times> fsnode) list" where
  "LEFT_PAD_TREE =
     [(js ''index.js'', FsOther (Some 1024)),
      (js ''lib'', FsDir (Some [(js ''a.js'', FsOther (Some 1000)), (js ''b.js'', FsOther (Some 24))]))]"

definition sample_world :: world where
  "sample_world =
     \<lparr>fetch = (\<lambda>url.
         if url = js ''https://registry.npmjs.org/lodash/4.17.21'' then Response True (Some LODASH_VERSION)
         else if url = js ''https://registry.npmjs.org/lodash'' then Response True (Some LODASH_METADATA)
         else if url = js ''https://registry.npmjs.org/legacy'' then Response True (Some LEGACY_METADATA)
         else Response False None),
      fs_stat = (\<lambda>p.
         if p = js ''/proj/node_modules/left-pad'' then Some (StatDirectory (Some LEFT_PAD_TREE))
         else None),
      config_enabled = True\<rparr>"

definition initial_state :: extension_state where
  "initial_state =
     \<lparr>sizeCache = Map.empty, decorationTypeCache = [], subscriptions = [], types_created = 0\<rparr>"

definition fresh_editor :: "document \<Rightarrow> editor" where
  "fresh_editor doc = \<lparr>document = doc, decorations = (\<lambda>t. [])\<rparr>"

definition offline_world :: world where
  "offline_world = \<lparr>fetch = (\<lambda>url. Rejected), fs_stat = (\<lambda>p. None), config_enabled = True\<rparr>"

definition disabled_world :: world where
  "disabled_world = sample_world\<lparr>config_enabled := False\<rparr>"

text \<open>A state and an editor in which the label \<open>1.4 MB\<close> is painted on line 0.\<close>

definition painted_state :: extension_state where
  "painted_state =
     \<lparr>sizeCache = [js ''lodash@4.17.21'' \<mapsto> js ''1.4 MB''],
      decorationTypeCache = [(js ''1.4 MB'', 0)], subscriptions = [0], types_created = 1\<rparr>"

definition painted_editor :: "document \<Rightarrow> editor" where
  "painted_editor doc =
     \<lparr>document = doc, decorations = (\<lambda>t. [])(0 := [((0, 37), (0, 37))])\<rparr>"

text \<open>
  A sequence of triggered updates of one editor: each runs in the world as it then is,
  on the document as it then is.
\<close>

fun run_updates ::
  "runtime \<Rightarrow> (world \<times> document) list \<Rightarrow> extension_state \<Rightarrow> editor
     \<Rightarrow> extension_state \<times> editor \<times> event list" where
  "run_updates rt [] st ed = (st, ed, [])"
| "run_updates rt ((w, doc) # triggers) st ed =
     (let p = updateDecorations rt w st (ed\<lparr>document := doc\<rparr>) in
      case run_updates rt triggers (pass_state p) (pass_editor p) of
        (st', ed', evs) \<Rightarrow> (st', ed', pass_events p @ evs))"


section \<open>Size formatting\<close>

lemma toFixed1_quotient:
  assumes "0 < q"
  shows "toFixed1 (of_int p / of_int q) =
           (let n = nat ((20 * p + q) div (2 * q)) in digits (n div 10) @ [46] @ digits (n mod 10))"
proof -
  have "(10 * (of_int p / of_int q) + 1 / 2 :: rat) = of_int (20 * p + q) / of_int (2 * q)"
    using assms by (simp add: field_simps)
  then have "\<lfloor>10 * (of_int p / of_int q) + 1 / 2 :: rat\<rfloor> = (20 * p + q) div (2 * q)"
    by (simp only: floor_divide_of_int_eq)
  then show ?thesis
    by (simp only: toFixed1_def)
qed

lemma formatBytes_eval:
  "formatBytes bytes =
     (if bytes \<ge> 1048576
      then (let n = nat ((20 * bytes + 1048576) div 2097152)
            in digits (n div 10) @ [46] @ digits (n mod 10)) @ js '' MB''
      else if bytes \<ge> 1024
      then (let n = nat ((20 * bytes + 1024) div 2048)
            in digits (n div 10) @ [46] @ digits (n mod 10)) @ js '' kB''
      else Number_toString bytes @ js '' B'')"
  using toFixed1_quotient [of 1048576 bytes] toFixed1_quotient [of 1024 bytes]
  by (simp add: formatBytes_def)

lemma toFixed1_nearest:
  assumes "0 \<le> x"
  shows "\<exists>n. toFixed1 x = digits (n div 10) @ js ''.'' @ [48 + n mod 10]
           \<and> - (1 / 20) < of_nat n / 10 - x \<and> of_nat n / 10 - x \<le> 1 / 20"
proof -
  define k where "k = \<lfloor>10 * x + 1 / 2\<rfloor>"
  have k0: "0 \<le> k"
    using assms by (simp add: k_def)
  have lo: "of_int k \<le> 10 * x + 1 / 2" and hi: "10 * x + 1 / 2 < of_int k + 1"
    unfolding k_def by linarith+
  have cast: "(of_nat (nat k) :: rat) = of_int k"
    using k0 by simp
  have "- (1 / 20) < of_nat (nat k) / 10 - x" and "of_nat (nat k) / 10 - x \<le> 1 / 20"
    unfolding cast using lo hi by linarith+
  moreover have "digits (nat k mod 10) = [48 + nat k mod 10]"
    by (subst digits.simps) simp
  then have "toFixed1 x = digits (nat k div 10) @ js ''.'' @ [48 + nat k mod 10]"
    by (simp add: toFixed1_def k_def Let_def)
  ultimately show ?thesis
    by blast
qed

text \<open>
  C1 (as the code has it). \<open>formatBytes\<close> chooses the unit by the binary thresholds
  1,048,576 and 1,024; above a threshold the quotient is printed with one decimal, rounded
  to the nearest tenth and upwards on a tie (\<^verbatim>\<open>toFixed(1)\<close> rounds, it does not
  truncate), followed by \<open>MB\<close> or \<open>kB\<close>; below 1,024 the count itself is printed,
  followed by \<open>B\<close>. This holds for every integer byte count that a JavaScript number
  holds exactly, up to \<open>MAX_SAFE_INTEGER\<close>. So 500 gives \<open>500 B\<close>, 2048 gives
  \<open>2.0 kB\<close>, 1572864 gives \<open>1.5 MB\<close>, and 1048575, just below the MB threshold,
  gives \<open>1024.0 kB\<close>.
\<close>

theorem formatBytes_thresholds:
  "formatBytes 500 = js ''500 B''
   \<and> formatBytes 2048 = js ''2.0 kB''
   \<and> formatBytes 1572864 = js ''1.5 MB''
   \<and> formatBytes 1048575 = js ''1024.0 kB''
   \<and> (1048576 \<le> bytes \<and> bytes \<le> MAX_SAFE_INTEGER \<longrightarrow>
        (\<exists>n. formatBytes bytes = digits (n div 10) @ js ''.'' @ [48 + n mod 10] @ js '' MB''
           \<and> - (1 / 20) < of_nat n / 10 - (of_int bytes / 1048576 :: rat)
           \<and> of_nat n / 10 - (of_int bytes / 1048576 :: rat) \<le> 1 / 20))
   \<and> (1024 \<le> bytes \<and> bytes < 1048576 \<longrightarrow>
        (\<exists>n. formatBytes bytes = digits (n div 10) @ js ''.'' @ [48 + n mod 10] @ js '' kB''
           \<and> - (1 / 20) < of_nat n / 10 - (of_int bytes / 1024 :: rat)
           \<and> of_nat n / 10 - (of_int bytes / 1024 :: rat) \<le> 1 / 20))
   \<and> (0 \<le> bytes \<and> bytes < 1024 \<longrightarrow> formatBytes bytes = digits (nat bytes) @ js '' B'')
   \<and> (- MAX_SAFE_INTEGER \<le> bytes \<and> bytes < 0 \<longrightarrow>
        formatBytes bytes = js ''-'' @ digits (nat (- bytes)) @ js '' B'')"
proof -
  have e1: "formatBytes 500 = js ''500 B''"
    by (simp add: formatBytes_eval Number_toString_def digits.simps)
  have e2: "formatBytes 2048 = js ''2.0 kB''"
    by (simp add: formatBytes_eval digits.simps)
  have e3: "formatBytes 1572864 = js ''1.5 MB''"
    by (simp add: formatBytes_eval digits.simps)
  have e4: "formatBytes 1048575 = js ''1024.0 kB''"
    by (simp add: formatBytes_eval digits.simps)
  have mb: "\<exists>n. formatBytes bytes = digits (n div 10) @ js ''.'' @ [48 + n mod 10] @ js '' MB''
           \<and> - (1 / 20) < of_nat n / 10 - (of_int bytes / 1048576 :: rat)
           \<and> of_nat n / 10 - (of_int bytes / 1048576 :: rat) \<le> 1 / 20"
    if "1048576 \<le> bytes"
  proof -
    have "(0::rat) \<le> of_int bytes / 1048576"
      using that by simp
    from toFixed1_nearest [OF this] obtain n where
      "toFixed1 (of_int bytes / 1048576) = digits (n div 10) @ js ''.'' @ [48 + n mod 10]"
      "- (1 / 20) < of_nat n / 10 - (of_int bytes / 1048576 :: rat)"
      "of_nat n / 10 - (of_int bytes / 1048576 :: rat) \<le> 1 / 20"
      by blast
    then show ?thesis
      using that by (intro exI [of _ n]) (simp add: formatBytes_def)
  qed
  have kb: "\<exists>n. formatBytes bytes = digits (n div 10) @ js ''.'' @ [48 + n mod 10] @ js '' kB''
           \<and> - (1 / 20) < of_nat n / 10 - (of_int bytes / 1024 :: rat)
           \<and> of_nat n / 10 - (of_int bytes / 1024 :: rat) \<le> 1 / 20"
    if "1024 \<le> bytes" "bytes < 1048576"
  proof -
    have "(0::rat) \<le> of_int bytes / 1024"
      using that by simp
    from toFixed1_nearest [OF this] obtain n where
      "toFixed1 (of_int bytes / 1024) = digits (n div 10) @ js ''.'' @ [48 + n mod 10]"
      "- (1 / 20) < of_nat n / 10 - (of_int bytes / 1024 :: rat)"
      "of_nat n / 10 - (of_int bytes / 1024 :: rat) \<le> 1 / 20"
      by blast
    then show ?thesis
      using that by (intro exI [of _ n]) (simp add: formatBytes_def)
  qed
  have b: "formatBytes bytes = digits (nat bytes) @ js '' B''" if "0 \<le> bytes" "bytes < 1024"
    using that by (simp add: formatBytes_def Number_toString_def)
  have nb: "formatBytes bytes = js ''-'' @ digits (nat (- bytes)) @ js '' B''" if "bytes < 0"
    using that by (simp add: formatBytes_def Number_toString_def)
  from e1 e2 e3 e4 mb kb b nb show ?thesis
    by blast
qed

theorem formatBytes_thresholds_witness:
  "(1048576 \<le> (1572864::int) \<and> 1572864 \<le> MAX_SAFE_INTEGER
     \<and> (\<exists>n. formatBytes 1572864 = digits (n div 10) @ js ''.'' @ [48 + n mod 10] @ js '' MB''
           \<and> - (1 / 20) < of_nat n / 10 - (of_int 1572864 / 1048576 :: rat)
           \<and> of_nat n / 10 - (of_int 1572864 / 1048576 :: rat) \<le> 1 / 20))
   \<and> (1024 \<le> (1280::int) \<and> (1280::int) < 1048576
     \<and> (\<exists>n. formatBytes 1280 = digits (n div 10) @ js ''.'' @ [48 + n mod 10] @ js '' kB''
           \<and> - (1 / 20) < of_nat n / 10 - (of_int 1280 / 1024 :: rat)
           \<and> of_nat n / 10 - (of_int 1280 / 1024 :: rat) \<le> 1 / 20))
   \<and> formatBytes 1280 = js ''1.3 kB''
   \<and> (0 \<le> (500::int) \<and> (500::int) < 1024 \<and> formatBytes 500 = digits (nat 500) @ js '' B'')
   \<and> (- MAX_SAFE_INTEGER \<le> (- 5::int) \<and> (- 5::int) < 0
     \<and> formatBytes (- 5) = js ''-'' @ digits (nat (- (- 5))) @ js '' B'')"
proof -
  have h1: "1048576 \<le> (1572864::int) \<and> 1572864 \<le> MAX_SAFE_INTEGER"
    and h2: "1024 \<le> (1280::int) \<and> (1280::int) < 1048576"
    and h3: "0 \<le> (500::int) \<and> (500::int) < 1024"
    and h4: "- MAX_SAFE_INTEGER \<le> (- 5::int) \<and> (- 5::int) < 0"
    by (simp_all add: MAX_SAFE_INTEGER_def)
  have e: "formatBytes 1280 = js ''1.3 kB''"
    by (simp add: formatBytes_eval digits.simps)
  have w1: "\<exists>n. formatBytes 1572864 = digits (n div 10) @ js ''.'' @ [48 + n mod 10] @ js '' MB''
           \<and> - (1 / 20) < of_nat n / 10 - (of_int 1572864 / 1048576 :: rat)
           \<and> of_nat n / 10 - (of_int 1572864 / 1048576 :: rat) \<le> 1 / 20"
    using formatBytes_thresholds [of 1572864] h1 by blast
  have w2: "\<exists>n. formatBytes 1280 = digits (n div 10) @ js ''.'' @ [48 + n mod 10] @ js '' kB''
           \<and> - (1 / 20) < of_nat n / 10 - (of_int 1280 / 1024 :: rat)
           \<and> of_nat n / 10 - (of_int 1280 / 1024 :: rat) \<le> 1 / 20"
    using formatBytes_thresholds [of 1280] h2 by blast
  have w3: "formatBytes 500 = digits (nat 500) @ js '' B''"
    using formatBytes_thresholds [of 500] h3 by blast
  have w4: "formatBytes (- 5) = js ''-'' @ digits (nat (- (- 5))) @ js '' B''"
    using formatBytes_thresholds [of "- 5"] h4 by blast
  from h1 h2 h3 h4 e w1 w2 w3 w4 show ?thesis
    by (intro conjI) (erule conjunct1 conjunct2 | assumption)+
qed

text \<open>
  The value the specification gives for 1048575 is not the one the code computes:
  1048575 / 1024 = 1023.999..., which \<^verbatim>\<open>toFixed(1)\<close> rounds up to \<open>1024.0\<close>.
\<close>

theorem formatBytes_boundary_counterexample:
  "formatBytes 1048575 = js ''1024.0 kB'' \<and> formatBytes 1048575 \<noteq> js ''1023.9 kB''"
  by (simp add: formatBytes_eval digits.simps)

section \<open>Exact-version detection\<close>

text \<open>The matcher decides membership in the language of a pattern.\<close>

lemma conc_iff: "w \<in> conc A B \<longleftrightarrow> (\<exists>u v. w = u @ v \<and> u \<in> A \<and> v \<in> B)"
  by (auto simp: conc_def)

lemma nullable_lang: "nullable r \<longleftrightarrow> [] \<in> lang r"
  by (induction r) (auto simp: conc_iff intro: star.intros)

lemma cons_conc:
  "c # w \<in> conc A B \<longleftrightarrow>
     (\<exists>u v. w = u @ v \<and> c # u \<in> A \<and> v \<in> B) \<or> ([] \<in> A \<and> c # w \<in> B)"
  unfolding conc_iff
  by (auto simp: Cons_eq_append_conv)

lemma star_cons_split:
  "w \<in> star A \<Longrightarrow> w = c # s \<Longrightarrow> \<exists>u v. s = u @ v \<and> c # u \<in> A \<and> v \<in> star A"
proof (induction arbitrary: c s rule: star.induct)
  case star_empty
  then show ?case by simp
next
  case (star_step u v)
  show ?case
  proof (cases u)
    case Nil
    with star_step show ?thesis by simp
  next
    case (Cons a u')
    with star_step.prems have "a = c" "s = u' @ v" by simp_all
    with Cons star_step.hyps show ?thesis by blast
  qed
qed

lemma cons_star:
  "c # s \<in> star A \<longleftrightarrow> (\<exists>u v. s = u @ v \<and> c # u \<in> A \<and> v \<in> star A)"
proof
  assume "c # s \<in> star A"
  then show "\<exists>u v. s = u @ v \<and> c # u \<in> A \<and> v \<in> star A"
    using star_cons_split by blast
next
  assume "\<exists>u v. s = u @ v \<and> c # u \<in> A \<and> v \<in> star A"
  then obtain u v where "s = u @ v" "c # u \<in> A" "v \<in> star A" by blast
  then show "c # s \<in> star A"
    using star.star_step [of "c # u" A v] by simp
qed

lemma lang_deriv: "s \<in> lang (deriv c r) \<longleftrightarrow> c # s \<in> lang r"
proof (induction r arbitrary: s)
  case (Seq r1 r2)
  have "s \<in> lang (deriv c (Seq r1 r2)) \<longleftrightarrow>
          (\<exists>u v. s = u @ v \<and> u \<in> lang (deriv c r1) \<and> v \<in> lang r2)
          \<or> (nullable r1 \<and> s \<in> lang (deriv c r2))"
    by (auto simp: conc_iff)
  also have "\<dots> \<longleftrightarrow>
          (\<exists>u v. s = u @ v \<and> c # u \<in> lang r1 \<and> v \<in> lang r2)
          \<or> ([] \<in> lang r1 \<and> c # s \<in> lang r2)"
    by (simp add: Seq.IH nullable_lang)
  also have "\<dots> \<longleftrightarrow> c # s \<in> lang (Seq r1 r2)"
    by (simp add: cons_conc)
  finally show ?case .
next
  case (Star r)
  then show ?case
    by (auto simp: cons_star conc_iff)
qed auto

lemma matches_lang: "matches r s \<longleftrightarrow> s \<in> lang r"
  by (induction s arbitrary: r) (auto simp: nullable_lang lang_deriv)

lemma star_cls: "star {[c] | c. p c} = {s. \<forall>x \<in> set s. p x}"
proof (intro set_eqI iffI)
  fix s assume "s \<in> star {[c] | c. p c}"
  then show "s \<in> {s. \<forall>x \<in> set s. p x}"
    by (induction rule: star.induct) auto
next
  fix s assume "s \<in> {s. \<forall>x \<in> set s. p x}"
  then show "s \<in> star {[c] | c. p c}"
  proof (induction s)
    case Nil
    show ?case by (rule star.star_empty)
  next
    case (Cons a s)
    then have "[a] \<in> {[c] | c. p c}" "s \<in> star {[c] | c. p c}" by auto
    then have "[a] @ s \<in> star {[c] | c. p c}" by (rule star.star_step)
    then show ?case by simp
  qed
qed

lemma lang_Plus_Cls: "lang (Plus (Cls p)) = {s. s \<noteq> [] \<and> (\<forall>x \<in> set s. p x)}"
proof -
  have "s \<in> conc {[c] | c. p c} {s. \<forall>x \<in> set s. p x} \<longleftrightarrow> s \<noteq> [] \<and> (\<forall>x \<in> set s. p x)" for s
  proof (cases s)
    case Nil
    then show ?thesis by (auto simp: conc_iff)
  next
    case (Cons a t)
    show ?thesis
    proof
      assume "s \<in> conc {[c] | c. p c} {s. \<forall>x \<in> set s. p x}"
      then show "s \<noteq> [] \<and> (\<forall>x \<in> set s. p x)"
        by (auto simp: conc_iff)
    next
      assume "s \<noteq> [] \<and> (\<forall>x \<in> set s. p x)"
      then have "a # t = [a] @ t \<and> [a] \<in> {[c] | c. p c} \<and> t \<in> {s. \<forall>x \<in> set s. p x}"
        using Cons by simp
      then show "s \<in> conc {[c] | c. p c} {s. \<forall>x \<in> set s. p x}"
        unfolding Cons conc_iff by blast
    qed
  qed
  then show ?thesis
    by (auto simp: star_cls)
qed

lemma lang_Star_Cls: "lang (Star (Cls p)) = {s. \<forall>x \<in> set s. p x}"
  by (simp add: star_cls)

lemma lang_Chr: "lang (Chr c) = {[of_char c]}"
  by auto


lemma plus_cls:
  "conc {[c] | c. p c} {s. \<forall>x \<in> set s. p x} = {s. s \<noteq> [] \<and> (\<forall>x \<in> set s. p x)}"
  using lang_Plus_Cls [of p] by (simp add: star_cls)

lemma lang_EXACT_VERSION:
  "lang EXACT_VERSION =
     conc {s. s \<noteq> [] \<and> (\<forall>x \<in> set s. is_digit x)} (conc {js ''.''}
    (conc {s. s \<noteq> [] \<and> (\<forall>x \<in> set s. is_digit x)} (conc {js ''.''}
    (conc {s. s \<noteq> [] \<and> (\<forall>x \<in> set s. is_digit x)}
    (conc (conc {js ''-''} {s. s \<noteq> [] \<and> (\<forall>x \<in> set s. x \<noteq> of_char CHR ''+'')} \<union> {[]})
          (conc {js ''+''} {s. \<forall>x \<in> set s. \<not> is_line_terminator x} \<union> {[]}))))))"
  by (simp add: EXACT_VERSION_def plus_cls star_cls)

lemma exact_version_shape:
  "matches EXACT_VERSION v \<longleftrightarrow>
    (\<exists>a b c pre build. v = a @ js ''.'' @ b @ js ''.'' @ c @ pre @ build
       \<and> a \<noteq> [] \<and> b \<noteq> [] \<and> c \<noteq> [] \<and> (\<forall>x\<in>set (a @ b @ c). is_digit x)
       \<and> (pre = [] \<or> (\<exists>p. pre = js ''-'' @ p \<and> p \<noteq> [] \<and> of_char CHR ''+'' \<notin> set p))
       \<and> (build = [] \<or> (\<exists>q. build = js ''+'' @ q \<and> (\<forall>x\<in>set q. \<not> is_line_terminator x))))"
  unfolding matches_lang lang_EXACT_VERSION conc_iff
  apply (rule iffI)
   apply (elim exE conjE)
   subgoal for a r1 d1 r2 b r3 d2 r4 c r5 pre build
     apply (rule exI [of _ a], rule exI [of _ b], rule exI [of _ c], rule exI [of _ pre], rule exI [of _ build])
     apply (auto simp: conc_iff)
     done
  apply (elim exE conjE)
  subgoal for a b c pre build
    apply (rule exI [of _ a], rule exI [of _ "js ''.'' @ b @ js ''.'' @ c @ pre @ build"], simp)
    apply (rule exI [of _ b], rule exI [of _ "js ''.'' @ c @ pre @ build"], simp)
    apply (rule exI [of _ c], rule exI [of _ "pre @ build"], simp)
    apply (rule exI [of _ pre], rule exI [of _ build])
    apply (auto simp: conc_iff)
    done
  done

text \<open>
  C6. \<open>isExactVersion\<close> accepts \<open>4.17.21\<close> and \<open>1.0.0-beta.1\<close> and rejects
  \<open>^4.17.21\<close>. It accepts exactly the strings of the shape digits, dot, digits, dot,
  digits, then optionally a prerelease (a hyphen and at least one character other than
  \<open>+\<close>), then optionally a build suffix (a \<open>+\<close> and any characters of its line), and
  besides them the string \<open>*\<close>. Although \<open>*\<close> is accepted, a resolution whose version
  is \<open>*\<close> requests the full metadata of the package (the URL without a version) and
  reads its result from that.
\<close>

theorem isExactVersion_classification:
  "isExactVersion (js ''4.17.21'')
   \<and> \<not> isExactVersion (js ''^4.17.21'')
   \<and> isExactVersion (js ''1.0.0-beta.1'')
   \<and> isExactVersion (js ''*'')
   \<and> (isExactVersion v \<longleftrightarrow>
         v = js ''*''
         \<or> (\<exists>a b c pre build. v = a @ js ''.'' @ b @ js ''.'' @ c @ pre @ build
               \<and> a \<noteq> [] \<and> b \<noteq> [] \<and> c \<noteq> [] \<and> (\<forall>x\<in>set (a @ b @ c). is_digit x)
               \<and> (pre = [] \<or> (\<exists>p. pre = js ''-'' @ p \<and> p \<noteq> [] \<and> of_char CHR ''+'' \<notin> set p))
               \<and> (build = [] \<or> (\<exists>q. build = js ''+'' @ q \<and> (\<forall>x\<in>set q. \<not> is_line_terminator x)))))
   \<and> (cache packageSpec = None \<and> parsePackageSpec packageSpec = (pkg, js ''*'') \<and> pkg \<noteq> []
        \<and> encodeURIComponent rt pkg = Some encodedName \<longrightarrow>
        fetchSize_call rt w cache packageSpec =
          (Later packageSpec
             (metadata_result rt (js ''*'') (fetch w (NPM_REGISTRY @ js ''/'' @ encodedName)))
             [Fetch (NPM_REGISTRY @ js ''/'' @ encodedName)], cache))"
proof -
  have ex: "isExactVersion (js ''4.17.21'')" "\<not> isExactVersion (js ''^4.17.21'')"
    "isExactVersion (js ''1.0.0-beta.1'')" "isExactVersion (js ''*'')"
    by (simp_all add: isExactVersion_def EXACT_VERSION_def is_digit_def is_line_terminator_def)
  have shape: "isExactVersion v \<longleftrightarrow>
         v = js ''*''
         \<or> (\<exists>a b c pre build. v = a @ js ''.'' @ b @ js ''.'' @ c @ pre @ build
               \<and> a \<noteq> [] \<and> b \<noteq> [] \<and> c \<noteq> [] \<and> (\<forall>x\<in>set (a @ b @ c). is_digit x)
               \<and> (pre = [] \<or> (\<exists>p. pre = js ''-'' @ p \<and> p \<noteq> [] \<and> of_char CHR ''+'' \<notin> set p))
               \<and> (build = [] \<or> (\<exists>q. build = js ''+'' @ q \<and> (\<forall>x\<in>set q. \<not> is_line_terminator x))))"
    unfolding isExactVersion_def exact_version_shape by blast
  have route: "fetchSize_call rt w cache packageSpec =
          (Later packageSpec
             (metadata_result rt (js ''*'') (fetch w (NPM_REGISTRY @ js ''/'' @ encodedName)))
             [Fetch (NPM_REGISTRY @ js ''/'' @ encodedName)], cache)"
    if "cache packageSpec = None" "parsePackageSpec packageSpec = (pkg, js ''*'')" "pkg \<noteq> []"
      "encodeURIComponent rt pkg = Some encodedName"
    using that by (simp add: fetchSize_call_def Let_def)
  from ex shape route show ?thesis
    by blast
qed

theorem isExactVersion_classification_witness:
  "(\<exists>a b c pre build. js ''1.0.0-beta.1'' = a @ js ''.'' @ b @ js ''.'' @ c @ pre @ build
       \<and> a \<noteq> [] \<and> b \<noteq> [] \<and> c \<noteq> [] \<and> (\<forall>x\<in>set (a @ b @ c). is_digit x)
       \<and> (pre = [] \<or> (\<exists>p. pre = js ''-'' @ p \<and> p \<noteq> [] \<and> of_char CHR ''+'' \<notin> set p))
       \<and> (build = [] \<or> (\<exists>q. build = js ''+'' @ q \<and> (\<forall>x\<in>set q. \<not> is_line_terminator x))))
   \<and> (Map.empty (js ''lodash'') = (None :: jstring option)
       \<and> parsePackageSpec (js ''lodash'') = (js ''lodash'', js ''*'') \<and> js ''lodash'' \<noteq> []
       \<and> encodeURIComponent sample_runtime (js ''lodash'') = Some (js ''lodash'')
       \<and> fetchSize_call sample_runtime sample_world Map.empty (js ''lodash'') =
           (Later (js ''lodash'') (js ''1.4 MB'') [Fetch (js ''https://registry.npmjs.org/lodash'')],
            Map.empty))"
proof -
  have h: "Map.empty (js ''lodash'') = (None :: jstring option)
       \<and> parsePackageSpec (js ''lodash'') = (js ''lodash'', js ''*'') \<and> js ''lodash'' \<noteq> []
       \<and> encodeURIComponent sample_runtime (js ''lodash'') = Some (js ''lodash'')"
    by (simp add: parsePackageSpec_def indexOf_def sample_runtime_def ascii_encodeURIComponent_def
        uri_unreserved_def)
  have m: "metadata_result sample_runtime (js ''*'')
             (fetch sample_world (js ''https://registry.npmjs.org/lodash'')) = js ''1.4 MB''"
    by (simp add: metadata_result_def sample_world_def LODASH_METADATA_def
        LODASH_VERSION_def latest_tag_def latest_key_def unpackedSize_of_def size_text_def
        formatBytes_eval digits.simps sample_runtime_def)
  have u: "NPM_REGISTRY @ js ''/'' @ js ''lodash'' = js ''https://registry.npmjs.org/lodash''"
    by (simp add: NPM_REGISTRY_def)
  have e: "isExactVersion (js ''1.0.0-beta.1'')" "js ''1.0.0-beta.1'' \<noteq> js ''*''"
    by (simp_all add: isExactVersion_def EXACT_VERSION_def is_digit_def is_line_terminator_def)
  note inst = isExactVersion_classification
    [of "js ''1.0.0-beta.1''" Map.empty "js ''lodash''" "js ''lodash''" sample_runtime
      "js ''lodash''" sample_world]
  from inst e have shape:
    "\<exists>a b c pre build. js ''1.0.0-beta.1'' = a @ js ''.'' @ b @ js ''.'' @ c @ pre @ build
       \<and> a \<noteq> [] \<and> b \<noteq> [] \<and> c \<noteq> [] \<and> (\<forall>x\<in>set (a @ b @ c). is_digit x)
       \<and> (pre = [] \<or> (\<exists>p. pre = js ''-'' @ p \<and> p \<noteq> [] \<and> of_char CHR ''+'' \<notin> set p))
       \<and> (build = [] \<or> (\<exists>q. build = js ''+'' @ q \<and> (\<forall>x\<in>set q. \<not> is_line_terminator x)))"
    by blast
  from inst h have "fetchSize_call sample_runtime sample_world Map.empty (js ''lodash'') =
          (Later (js ''lodash'')
             (metadata_result sample_runtime (js ''*'')
                (fetch sample_world (NPM_REGISTRY @ js ''/'' @ js ''lodash'')))
             [Fetch (NPM_REGISTRY @ js ''/'' @ js ''lodash'')], Map.empty)"
    by blast
  then have call: "fetchSize_call sample_runtime sample_world Map.empty (js ''lodash'') =
           (Later (js ''lodash'') (js ''1.4 MB'') [Fetch (js ''https://registry.npmjs.org/lodash'')],
            Map.empty)"
    unfolding u m .
  from shape h call show ?thesis
    by blast
qed

section \<open>Sample runs\<close>

lemmas sample_simps =
  sample_runtime_def sample_world_def sample_manifests_def manifest_document_def
  LODASH_MANIFEST_def TWO_LINE_MANIFEST_def DUPLICATE_MANIFEST_def BROKEN_MANIFEST_def
  INHERITED_KEY_MANIFEST_def EMPTY_MANIFEST_def STRING_MAP_MANIFEST_def TWO_LINE_JSON_def
  LODASH_METADATA_def LODASH_VERSION_def LEGACY_METADATA_def LEFT_PAD_TREE_def initial_state_def fresh_editor_def
  ascii_encodeURIComponent_def ascii_toLowerCase_def uri_unreserved_def hex_digit_def
  dirname_slash_def OBJECT_PROTOTYPE_def

lemma sample_enabled: "config_enabled sample_world"
  by (simp add: sample_world_def)

lemma sample_isPackageJson: "isPackageJson sample_runtime (manifest_document ls)"
  by (simp add: isPackageJson_def endsWith_def PACKAGE_JSON_def sample_simps)

lemma sample_dirname: "path_dirname sample_runtime (fsPath (manifest_document ls)) = js ''/proj''"
  by (simp add: sample_simps)



lemma duplicate_parse:
  "parseDepsFromDocument sample_runtime (manifest_document [DUPLICATE_MANIFEST]) =
     ([\<lparr>entry_name = js ''a'', entry_version = js ''1.0.0'', entry_range = ((0, 62), (0, 62))\<rparr>,
       \<lparr>entry_name = js ''a'', entry_version = js ''1.0.0'', entry_range = ((0, 62), (0, 62))\<rparr>],
      [])"
  by (simp add: parseDepsFromDocument_def getText_def sample_simps exec_at_def
      is_white_space_def is_line_terminator_def or_empty_def make_entry_def positionAt_def
      lineAt_end_def)



lemma missing_package_run:
  "fetchSize sample_runtime sample_world Map.empty (js ''no-such-package'') =
     (Some UNKNOWN, [js ''no-such-package'' \<mapsto> UNKNOWN],
      [Fetch (js ''https://registry.npmjs.org/no-such-package'')])"
  by (simp add: fetchSize_def complete_def fetchSize_call_def parsePackageSpec_def indexOf_def
      Let_def NPM_REGISTRY_def metadata_result_def sample_simps)

lemma missing_install_run:
  "getNodeModulesPackageSize sample_runtime sample_world Map.empty (js ''/proj'') (js ''@scope/name'') =
     (Some UNKNOWN, [js ''node_modules:/proj/node_modules/@scope/name'' \<mapsto> UNKNOWN],
      [FsStat (js ''/proj/node_modules/@scope/name'')])"
  by (simp add: getNodeModulesPackageSize_def complete_def getNodeModulesPackageSize_call_def
      node_modules_key_def install_path_def Let_def sample_simps)

section \<open>Malformed manifests\<close>

text \<open>
  C4. When the text of the document is not valid JSON (\<^verbatim>\<open>JSON.parse\<close> throws), the
  parser returns two empty sequences. It cannot raise: every exception of the body is
  caught, and the model is a total function into the pair of sequences.
\<close>

theorem malformed_json_yields_no_entries:
  "JSON_parse rt (getText doc) = None \<Longrightarrow> parseDepsFromDocument rt doc = ([], [])"
  by (simp add: parseDepsFromDocument_def)

theorem malformed_json_yields_no_entries_witness:
  "JSON_parse sample_runtime (getText (manifest_document [BROKEN_MANIFEST])) = None
   \<and> parseDepsFromDocument sample_runtime (manifest_document [BROKEN_MANIFEST]) = ([], [])"
proof -
  have h: "JSON_parse sample_runtime (getText (manifest_document [BROKEN_MANIFEST])) = None"
    by (simp add: sample_runtime_def getText_def manifest_document_def BROKEN_MANIFEST_def
        sample_manifests_def LODASH_MANIFEST_def TWO_LINE_MANIFEST_def DUPLICATE_MANIFEST_def
        INHERITED_KEY_MANIFEST_def EMPTY_MANIFEST_def STRING_MAP_MANIFEST_def)
  from h malformed_json_yields_no_entries [OF h] show ?thesis
    by blast
qed

section \<open>The cache\<close>

lemma fetchSize_cached: "c spec = Some t \<Longrightarrow> fetchSize rt w c spec = (Some t, c, [])"
  by (simp add: fetchSize_def fetchSize_call_def complete_def)

lemma fetchSize_stores: "fetchSize rt w c spec = (Some t, c', evs) \<Longrightarrow> c' spec = Some t"
  by (auto simp: fetchSize_def fetchSize_call_def complete_def Let_def
      split: option.splits prod.splits if_splits)




lemma node_cached:
  "c (node_modules_key rt docDir pkg) = Some t \<Longrightarrow>
     getNodeModulesPackageSize rt w c docDir pkg = (Some t, c, [])"
  by (simp add: getNodeModulesPackageSize_def getNodeModulesPackageSize_call_def complete_def)

lemma node_stores:
  "getNodeModulesPackageSize rt w c docDir pkg = (r, c', evs) \<Longrightarrow>
     \<exists>t. r = Some t \<and> c' (node_modules_key rt docDir pkg) = Some t"
proof (cases "c (node_modules_key rt docDir pkg)")
  case None
  assume "getNodeModulesPackageSize rt w c docDir pkg = (r, c', evs)"
  with None show ?thesis
    by (auto simp: getNodeModulesPackageSize_def getNodeModulesPackageSize_call_def complete_def
        Let_def split: option.splits prod.splits stats.splits)
next
  case (Some t)
  assume a: "getNodeModulesPackageSize rt w c docDir pkg = (r, c', evs)"
  from Some have "getNodeModulesPackageSize rt w c docDir pkg = (Some t, c, [])"
    by (rule node_cached)
  with a have "r = Some t" "c' = c" by simp_all
  with Some show ?thesis by simp
qed






text \<open>
  C10. A failed resolution stores the unknown label under its key like any other result;
  from then on a resolution of that key returns the label from the cache without any
  registry or file-system operation, even where the lookup would now succeed.
  \<open>deactivate\<close> empties the cache.
\<close>

theorem unknown_results_are_cached:
  "(fetchSize rt w c spec = (Some UNKNOWN, c', evs) \<longrightarrow>
      c' spec = Some UNKNOWN \<and> fetchSize rt' w' c' spec = (Some UNKNOWN, c', []))
   \<and> (getNodeModulesPackageSize rt w c docDir pkg = (Some UNKNOWN, c2, evs2) \<longrightarrow>
      c2 (node_modules_key rt docDir pkg) = Some UNKNOWN
      \<and> getNodeModulesPackageSize rt w' c2 docDir pkg = (Some UNKNOWN, c2, []))
   \<and> sizeCache (deactivate st) = Map.empty"
  using fetchSize_stores [of rt w c spec UNKNOWN c' evs] fetchSize_cached [of c' spec UNKNOWN rt' w']
    node_stores [of rt w c docDir pkg "Some UNKNOWN" c2 evs2]
    node_cached [of c2 rt docDir pkg UNKNOWN w']
  by (auto simp: deactivate_def)

theorem unknown_results_are_cached_witness:
  "fetchSize sample_runtime offline_world Map.empty (js ''lodash@4.17.21'') =
       (Some UNKNOWN, [js ''lodash@4.17.21'' \<mapsto> UNKNOWN],
        [Fetch (js ''https://registry.npmjs.org/lodash/4.17.21'')])
   \<and> fetchSize sample_runtime sample_world [js ''lodash@4.17.21'' \<mapsto> UNKNOWN]
         (js ''lodash@4.17.21'') =
       (Some UNKNOWN, [js ''lodash@4.17.21'' \<mapsto> UNKNOWN], [])
   \<and> getNodeModulesPackageSize sample_runtime offline_world Map.empty (js ''/proj'') (js ''left-pad'') =
       (Some UNKNOWN, [js ''node_modules:/proj/node_modules/left-pad'' \<mapsto> UNKNOWN],
        [FsStat (js ''/proj/node_modules/left-pad'')])
   \<and> getNodeModulesPackageSize sample_runtime sample_world
         [js ''node_modules:/proj/node_modules/left-pad'' \<mapsto> UNKNOWN] (js ''/proj'') (js ''left-pad'') =
       (Some UNKNOWN, [js ''node_modules:/proj/node_modules/left-pad'' \<mapsto> UNKNOWN], [])"
proof -
  have ex: "isExactVersion (js ''4.17.21'')"
    by (simp add: isExactVersion_def EXACT_VERSION_def is_digit_def is_line_terminator_def)
  have f: "fetchSize sample_runtime offline_world Map.empty (js ''lodash@4.17.21'') =
       (Some UNKNOWN, [js ''lodash@4.17.21'' \<mapsto> UNKNOWN],
        [Fetch (js ''https://registry.npmjs.org/lodash/4.17.21'')])"
    using ex
    by (simp add: fetchSize_def complete_def fetchSize_call_def parsePackageSpec_def indexOf_def
        Let_def NPM_REGISTRY_def exact_result_def offline_world_def sample_simps)
  have g: "getNodeModulesPackageSize sample_runtime offline_world Map.empty (js ''/proj'') (js ''left-pad'') =
       (Some UNKNOWN, [js ''node_modules:/proj/node_modules/left-pad'' \<mapsto> UNKNOWN],
        [FsStat (js ''/proj/node_modules/left-pad'')])"
    by (simp add: getNodeModulesPackageSize_def complete_def getNodeModulesPackageSize_call_def
        node_modules_key_def install_path_def Let_def offline_world_def sample_simps)
  note inst = unknown_results_are_cached
    [of sample_runtime offline_world Map.empty "js ''lodash@4.17.21''"
      "[js ''lodash@4.17.21'' \<mapsto> UNKNOWN]"
      "[Fetch (js ''https://registry.npmjs.org/lodash/4.17.21'')]" sample_runtime sample_world
      "js ''/proj''" "js ''left-pad''"
      "[js ''node_modules:/proj/node_modules/left-pad'' \<mapsto> UNKNOWN]"
      "[FsStat (js ''/proj/node_modules/left-pad'')]"]
  from inst f have a: "fetchSize sample_runtime sample_world [js ''lodash@4.17.21'' \<mapsto> UNKNOWN]
         (js ''lodash@4.17.21'') =
       (Some UNKNOWN, [js ''lodash@4.17.21'' \<mapsto> UNKNOWN], [])"
    by blast
  from inst g have b: "getNodeModulesPackageSize sample_runtime sample_world
         [js ''node_modules:/proj/node_modules/left-pad'' \<mapsto> UNKNOWN] (js ''/proj'') (js ''left-pad'') =
       (Some UNKNOWN, [js ''node_modules:/proj/node_modules/left-pad'' \<mapsto> UNKNOWN], [])"
    by blast
  from f a g b show ?thesis
    by blast
qed

section \<open>The configuration flag\<close>

lemma run_updates_disabled:
  "\<forall>t \<in> set triggers. \<not> config_enabled (fst t) \<Longrightarrow>
     \<exists>ed'. run_updates rt triggers st ed = (st, ed', []) \<and> decorations ed' = decorations ed"
proof (induction triggers arbitrary: ed)
  case Nil
  then show ?case by simp
next
  case (Cons t triggers)
  obtain w doc where t: "t = (w, doc)" by (cases t)
  from Cons.prems t have off: "\<not> config_enabled w" by simp
  from Cons.prems have rest: "\<forall>t \<in> set triggers. \<not> config_enabled (fst t)" by simp
  from Cons.IH [OF rest, of "ed\<lparr>document := doc\<rparr>"] obtain ed' where
    "run_updates rt triggers st (ed\<lparr>document := doc\<rparr>) = (st, ed', [])"
    "decorations ed' = decorations ed" by auto
  with off t show ?case
    by (simp add: updateDecorations_def)
qed

text \<open>
  C9. With the flag disabled, an update does nothing: no parsing, no registry or
  file-system operation, no \<open>setDecorations\<close> call; the state and the editor are
  unchanged. So through any sequence of updates made while the flag is disabled, whatever
  the documents have become, the painted labels stay as they were.
\<close>

theorem disabled_flag_leaves_labels:
  "(\<not> config_enabled w \<longrightarrow>
      updateDecorations rt w st ed =
        \<lparr>pass_state = st, pass_editor = ed, pass_events = [], pass_fulfilled = True\<rparr>)
   \<and> ((\<forall>t \<in> set triggers. \<not> config_enabled (fst t)) \<longrightarrow>
        (\<exists>ed'. run_updates rt triggers st ed = (st, ed', [])
           \<and> decorations ed' = decorations ed))"
  using run_updates_disabled [of triggers rt st ed] by (simp add: updateDecorations_def)

theorem disabled_flag_leaves_labels_witness:
  "\<not> config_enabled disabled_world
   \<and> updateDecorations sample_runtime disabled_world painted_state
         (painted_editor (manifest_document [LODASH_MANIFEST])) =
       \<lparr>pass_state = painted_state,
        pass_editor = painted_editor (manifest_document [LODASH_MANIFEST]),
        pass_events = [], pass_fulfilled = True\<rparr>
   \<and> \<not> config_enabled (fst (disabled_world, manifest_document [EMPTY_MANIFEST]))
   \<and> \<not> config_enabled (fst (disabled_world, manifest_document [LODASH_MANIFEST]))
   \<and> (\<exists>ed'. run_updates sample_runtime
           [(disabled_world, manifest_document [EMPTY_MANIFEST]),
            (disabled_world, manifest_document [LODASH_MANIFEST])]
           painted_state (painted_editor (manifest_document [LODASH_MANIFEST])) =
             (painted_state, ed', [])
         \<and> decorations ed' = decorations (painted_editor (manifest_document [LODASH_MANIFEST])))"
proof -
  have h1: "\<not> config_enabled disabled_world"
    by (simp add: disabled_world_def)
  then have h2: "\<forall>t \<in> set [(disabled_world, manifest_document [EMPTY_MANIFEST]),
                   (disabled_world, manifest_document [LODASH_MANIFEST])].
         \<not> config_enabled (fst t)"
    by simp
  from h1 have h3: "\<not> config_enabled (fst (disabled_world, manifest_document [EMPTY_MANIFEST]))"
    and h4: "\<not> config_enabled (fst (disabled_world, manifest_document [LODASH_MANIFEST]))"
    by simp_all
  from h1 h2 h3 h4 disabled_flag_leaves_labels
    [of disabled_world sample_runtime painted_state
      "painted_editor (manifest_document [LODASH_MANIFEST])"
      "[(disabled_world, manifest_document [EMPTY_MANIFEST]),
        (disabled_world, manifest_document [LODASH_MANIFEST])]"]
  show ?thesis
    by blast
qed

section \<open>Installed packages\<close>

lemma getDirSize_total:
  "snd (getDirSize rt dirPath listing) =
     (if listing_fails listing then None else Some (sum_list (listing_files listing)))"
  "snd (dir_entries rt dirPath ents acc) =
     (if entries_fail ents then None else Some (acc + sum_list (entries_files ents)))"
proof (induction rt dirPath listing and rt dirPath ents acc rule: getDirSize_dir_entries.induct)
  case (1 rt dirPath)
  show ?case by simp
next
  case (2 rt dirPath entries)
  then show ?case by (cases "dir_entries rt dirPath entries 0") (auto split: if_splits)
next
  case (3 rt dirPath acc)
  show ?case by simp
next
  case (4 rt dirPath ent_name listing ents acc)
  obtain evs r where g: "getDirSize rt (path_join rt [dirPath, ent_name]) listing = (evs, r)"
    by (cases "getDirSize rt (path_join rt [dirPath, ent_name]) listing")
  with "4.IH"(1) have r: "r = (if listing_fails listing then None
      else Some (sum_list (listing_files listing)))"
    by simp
  show ?case
  proof (cases r)
    case None
    with g r show ?thesis by (simp split: if_splits)
  next
    case (Some n)
    with r have nf: "\<not> listing_fails listing" and n: "n = sum_list (listing_files listing)"
      by (simp_all split: if_splits)
    from "4.IH"(2) [OF g [symmetric] Some]
    have "snd (dir_entries rt dirPath ents (acc + n)) =
        (if entries_fail ents then None else Some (acc + n + sum_list (entries_files ents)))" .
    with g Some nf n show ?thesis
      by (cases "dir_entries rt dirPath ents (acc + n)") (auto split: if_splits)
  qed
next
  case (5 rt dirPath ent_name st ents acc)
  show ?case
  proof (cases st)
    case None
    then show ?thesis by simp
  next
    case (Some sz)
    with "5.IH" [OF Some] show ?thesis
      by (cases "dir_entries rt dirPath ents (acc + sz)") (auto split: if_splits)
  qed
qed

lemma install_path_scoped:
  "install_path rt docDir (js ''@scope/name'') =
     path_join rt [docDir, js ''node_modules'', js ''@scope'', js ''name'']"
  by (simp add: install_path_def)

text \<open>
  C8. An entry whose version starts with \<open>file:\<close> is resolved by
  \<open>getNodeModulesPackageSize\<close>. For a key that is not cached, the path examined is the
  join of the directory of the manifest, \<open>node_modules\<close> and the package name, a scoped
  name being split at its slashes (\<open>@scope/name\<close> gives two segments); the path is
  stat'ed first. A file gives its formatted size; a directory gives the formatted sum of
  the sizes of all files below it at any depth, unless a \<open>readdir\<close> or \<open>stat\<close>
  rejects anywhere below it, in which case the result is the unknown label and no partial
  sum; a path that cannot be stat'ed, or is neither file nor directory, gives the unknown
  label. The result is stored under the key.
\<close>

theorem local_package_size:
  assumes "c (node_modules_key rt docDir pkg) = None"
  shows "install_path rt docDir pkg =
           path_join rt ([docDir, js ''node_modules'']
             @ (if take 1 pkg = js ''@'' then split_on (of_char CHR ''/'') pkg else [pkg]))
    \<and> install_path rt docDir (js ''@scope/name'') =
           path_join rt [docDir, js ''node_modules'', js ''@scope'', js ''name'']
    \<and> (isFileDependency (entry_version d) \<longrightarrow>
          resolve_call rt w docDir c d = getNodeModulesPackageSize_call rt w c docDir (entry_name d))
    \<and> (\<exists>text evs. getNodeModulesPackageSize rt w c docDir pkg =
           (Some text, c(node_modules_key rt docDir pkg \<mapsto> text),
            FsStat (install_path rt docDir pkg) # evs)
         \<and> (\<forall>sz. fs_stat w (install_path rt docDir pkg) = Some (StatFile sz) \<longrightarrow>
               text = formatBytes (int sz))
         \<and> (\<forall>listing. fs_stat w (install_path rt docDir pkg) = Some (StatDirectory listing) \<longrightarrow>
               text = (if listing_fails listing then UNKNOWN
                       else formatBytes (int (sum_list (listing_files listing)))))
         \<and> (fs_stat w (install_path rt docDir pkg) = None
              \<or> fs_stat w (install_path rt docDir pkg) = Some StatOther \<longrightarrow> text = UNKNOWN))"
proof -
  have p: "install_path rt docDir pkg =
           path_join rt ([docDir, js ''node_modules'']
             @ (if take 1 pkg = js ''@'' then split_on (of_char CHR ''/'') pkg else [pkg]))"
    by (simp add: install_path_def)
  have r: "resolve_call rt w docDir c d = getNodeModulesPackageSize_call rt w c docDir (entry_name d)"
    if "isFileDependency (entry_version d)"
    using that by (simp add: resolve_call_def)
  have run: "\<exists>text evs. getNodeModulesPackageSize rt w c docDir pkg =
           (Some text, c(node_modules_key rt docDir pkg \<mapsto> text),
            FsStat (install_path rt docDir pkg) # evs)
         \<and> (\<forall>sz. fs_stat w (install_path rt docDir pkg) = Some (StatFile sz) \<longrightarrow>
               text = formatBytes (int sz))
         \<and> (\<forall>listing. fs_stat w (install_path rt docDir pkg) = Some (StatDirectory listing) \<longrightarrow>
               text = (if listing_fails listing then UNKNOWN
                       else formatBytes (int (sum_list (listing_files listing)))))
         \<and> (fs_stat w (install_path rt docDir pkg) = None
              \<or> fs_stat w (install_path rt docDir pkg) = Some StatOther \<longrightarrow> text = UNKNOWN)"
  proof (cases "fs_stat w (install_path rt docDir pkg)")
    case None
    with assms show ?thesis
      by (simp add: getNodeModulesPackageSize_def getNodeModulesPackageSize_call_def complete_def)
  next
    case (Some st)
    show ?thesis
    proof (cases st)
      case (StatFile sz)
      with Some assms show ?thesis
        by (simp add: getNodeModulesPackageSize_def getNodeModulesPackageSize_call_def complete_def)
    next
      case (StatDirectory listing)
      obtain evs r where g: "getDirSize rt (install_path rt docDir pkg) listing = (evs, r)"
        by (cases "getDirSize rt (install_path rt docDir pkg) listing")
      with getDirSize_total(1) [of rt "install_path rt docDir pkg" listing]
      have "r = (if listing_fails listing then None else Some (sum_list (listing_files listing)))"
        by simp
      with g Some StatDirectory assms show ?thesis
        by (simp add: getNodeModulesPackageSize_def getNodeModulesPackageSize_call_def complete_def)
    next
      case StatOther
      with Some assms show ?thesis
        by (simp add: getNodeModulesPackageSize_def getNodeModulesPackageSize_call_def complete_def)
    qed
  qed
  from p install_path_scoped r run show ?thesis
    by blast
qed


theorem local_package_size_witness:
  "Map.empty (node_modules_key sample_runtime (js ''/proj'') (js ''left-pad'')) = (None :: jstring option)
   \<and> isFileDependency (entry_version
         \<lparr>entry_name = js ''left-pad'', entry_version = js ''file:../left-pad'',
          entry_range = ((0, 0), (0, 0))\<rparr>)
   \<and> resolve_call sample_runtime sample_world (js ''/proj'') Map.empty
         \<lparr>entry_name = js ''left-pad'', entry_version = js ''file:../left-pad'',
          entry_range = ((0, 0), (0, 0))\<rparr> =
       getNodeModulesPackageSize_call sample_runtime sample_world Map.empty (js ''/proj'')
         (js ''left-pad'')
   \<and> fs_stat sample_world (install_path sample_runtime (js ''/proj'') (js ''left-pad'')) =
       Some (StatDirectory (Some LEFT_PAD_TREE))
   \<and> \<not> listing_fails (Some LEFT_PAD_TREE)
   \<and> sum_list (listing_files (Some LEFT_PAD_TREE)) = 2048
   \<and> fst (getNodeModulesPackageSize sample_runtime sample_world Map.empty (js ''/proj'')
         (js ''left-pad'')) = Some (js ''2.0 kB'')"
proof -
  let ?d = "\<lparr>entry_name = js ''left-pad'', entry_version = js ''file:../left-pad'',
          entry_range = ((0, 0), (0, 0))\<rparr>"
  have h: "Map.empty (node_modules_key sample_runtime (js ''/proj'') (js ''left-pad'')) =
      (None :: jstring option)"
    by simp
  have f: "isFileDependency (entry_version ?d)"
    by (simp add: isFileDependency_def FILE_PROTOCOL_def)
  have st: "fs_stat sample_world (install_path sample_runtime (js ''/proj'') (js ''left-pad'')) =
       Some (StatDirectory (Some LEFT_PAD_TREE))"
    by (simp add: install_path_def sample_runtime_def sample_world_def)
  have nf: "\<not> listing_fails (Some LEFT_PAD_TREE)"
    and tot: "sum_list (listing_files (Some LEFT_PAD_TREE)) = 2048"
    by (simp_all add: LEFT_PAD_TREE_def)
  have fb: "formatBytes (int 2048) = js ''2.0 kB''"
    by (simp add: formatBytes_eval digits.simps)
  note inst = local_package_size
    [where c = Map.empty and rt = sample_runtime and docDir = "js ''/proj''"
      and pkg = "js ''left-pad''" and d = ?d and w = sample_world, OF h]
  note route = inst [THEN conjunct2, THEN conjunct2, THEN conjunct1]
  note ran = inst [THEN conjunct2, THEN conjunct2, THEN conjunct2]
  from route f have r: "resolve_call sample_runtime sample_world (js ''/proj'') Map.empty ?d =
       getNodeModulesPackageSize_call sample_runtime sample_world Map.empty (js ''/proj'')
         (js ''left-pad'')"
    by simp
  from ran obtain label evs where
    run: "getNodeModulesPackageSize sample_runtime sample_world Map.empty (js ''/proj'')
         (js ''left-pad'') =
       (Some label, [node_modules_key sample_runtime (js ''/proj'') (js ''left-pad'') \<mapsto> label],
        FsStat (install_path sample_runtime (js ''/proj'') (js ''left-pad'')) # evs)"
    and dir: "\<forall>listing. fs_stat sample_world
          (install_path sample_runtime (js ''/proj'') (js ''left-pad'')) =
            Some (StatDirectory listing) \<longrightarrow>
          label = (if listing_fails listing then UNKNOWN
                  else formatBytes (int (sum_list (listing_files listing))))"
    by blast
  from dir st have "label = (if listing_fails (Some LEFT_PAD_TREE) then UNKNOWN
      else formatBytes (int (sum_list (listing_files (Some LEFT_PAD_TREE)))))"
    by blast
  with nf tot fb have "label = js ''2.0 kB''"
    by (simp only: if_False)
  with run have res: "fst (getNodeModulesPackageSize sample_runtime sample_world Map.empty
      (js ''/proj'') (js ''left-pad'')) = Some (js ''2.0 kB'')"
    by simp
  from h f r st nf tot res show ?thesis
    by blast
qed

section \<open>Registry resolution of a version that is not exact\<close>











text \<open>
  A version spec that is a name inherited from \<open>Object.prototype\<close> is found by the lookup
  although the versions do not hold it; what is found has no \<open>dist\<close>, so the result is the
  unknown label and \<open>latest\<close> is not consulted.
\<close>

lemma inherited_name_is_looked_up:
  "fetchSize sample_runtime sample_world Map.empty (js ''lodash@constructor'') =
     (Some UNKNOWN, [js ''lodash@constructor'' \<mapsto> UNKNOWN],
      [Fetch (js ''https://registry.npmjs.org/lodash'')])"
proof -
  have "\<not> isExactVersion (js ''constructor'')"
    by (simp add: isExactVersion_def EXACT_VERSION_def is_digit_def is_line_terminator_def)
  then show ?thesis
    by (simp add: fetchSize_def complete_def fetchSize_call_def parsePackageSpec_def indexOf_def
        Let_def NPM_REGISTRY_def metadata_result_def latest_tag_def latest_key_def
        unpackedSize_of_def size_text_def sample_simps)
qed


section \<open>Parsing a manifest\<close>







lemma null_manifest_yields_no_entries:
  "JSON_parse rt (getText doc) = Some JNull \<Longrightarrow> parseDepsFromDocument rt doc = ([], [])"
  by (simp add: parseDepsFromDocument_def)



lemma exec_at_shape:
  assumes "exec_at s = Some (key, val, rest)"
  shows "\<exists>ws1 ws2. s = js ''\"'' @ key @ js ''\"'' @ ws1 @ js '':'' @ ws2 @ js ''\"'' @ val @ js ''\"'' @ rest
           \<and> key \<noteq> [] \<and> 34 \<notin> set key \<and> 34 \<notin> set val
           \<and> (\<forall>c \<in> set ws1. is_white_space c) \<and> (\<forall>c \<in> set ws2. is_white_space c)"
proof -
  from assms obtain s1 where s: "s = 34 # s1"
    by (cases s) (auto simp: exec_at_def split: if_splits)
  define s2 where "s2 = dropWhile (\<lambda>x. x \<noteq> 34) s1"
  have k: "s1 = takeWhile (\<lambda>x. x \<noteq> 34) s1 @ s2"
    by (simp add: s2_def)
  from assms s have key: "key = takeWhile (\<lambda>x. x \<noteq> 34) s1" and kne: "key \<noteq> []" and s2ne: "s2 \<noteq> []"
    by (auto simp: exec_at_def Let_def s2_def split: if_splits list.splits)
  from s2ne have s2q: "s2 = 34 # tl s2"
    unfolding s2_def by (metis (mono_tags, lifting) dropWhile_eq_Nil_conv hd_dropWhile list.collapse)
  define ws1 where "ws1 = takeWhile is_white_space (tl s2)"
  define s3 where "s3 = dropWhile is_white_space (tl s2)"
  have t2: "tl s2 = ws1 @ s3"
    by (simp add: ws1_def s3_def)
  from assms s kne s2ne obtain s4 where s3c: "s3 = 58 # s4"
    by (auto simp: exec_at_def Let_def s2_def s3_def split: if_splits list.splits)
  define ws2 where "ws2 = takeWhile is_white_space s4"
  define s5 where "s5 = dropWhile is_white_space s4"
  have t4: "s4 = ws2 @ s5"
    by (simp add: ws2_def s5_def)
  from assms s kne s2ne s3c obtain s6 where s5c: "s5 = 34 # s6"
    by (auto simp: exec_at_def Let_def s2_def s3_def s5_def split: if_splits list.splits)
  define s7 where "s7 = dropWhile (\<lambda>x. x \<noteq> 34) s6"
  have t6: "s6 = takeWhile (\<lambda>x. x \<noteq> 34) s6 @ s7"
    by (simp add: s7_def)
  from assms s kne s2ne s3c s5c have val: "val = takeWhile (\<lambda>x. x \<noteq> 34) s6"
    and s7ne: "s7 \<noteq> []" and rest: "rest = tl s7"
    by (auto simp: exec_at_def Let_def s2_def s3_def s5_def s7_def split: if_splits list.splits)
  from s7ne have s7q: "s7 = 34 # rest"
    unfolding s7_def rest
    by (metis (mono_tags, lifting) dropWhile_eq_Nil_conv hd_dropWhile list.collapse)
  have whole: "s = js ''\"'' @ key @ js ''\"'' @ ws1 @ js '':'' @ ws2 @ js ''\"'' @ val @ js ''\"'' @ rest"
    using s k s2q t2 s3c t4 s5c t6 s7q key val by simp
  have nq: "34 \<notin> set key" "34 \<notin> set val"
    unfolding key val by (auto dest: set_takeWhileD)
  have ws: "\<forall>c \<in> set ws1. is_white_space c" "\<forall>c \<in> set ws2. is_white_space c"
    unfolding ws1_def ws2_def by (auto dest: set_takeWhileD)
  from whole kne nq ws show ?thesis
    by blast
qed

text \<open>
  Conversely \<open>exec_at\<close> finds every match: what it accepts at a position are the
  strings with a prefix in the language of the pattern, and what follows the match is
  the same for every such prefix.
\<close>

lemma lang_SCAN_PATTERN:
  "lang SCAN_PATTERN =
     conc {[34]} (conc {s. s \<noteq> [] \<and> (\<forall>x \<in> set s. x \<noteq> 34)} (conc {[34]}
    (conc {s. \<forall>x \<in> set s. is_white_space x} (conc {[58]} (conc {s. \<forall>x \<in> set s. is_white_space x}
    (conc {[34]} (conc {s. \<forall>x \<in> set s. x \<noteq> 34} {[34]})))))))"
  by (simp add: SCAN_PATTERN_def plus_cls star_cls)

lemma exec_at_complete:
  assumes "s = [34] @ key @ [34] @ ws1 @ [58] @ ws2 @ [34] @ val @ [34] @ rest"
    and "key \<noteq> []" and "34 \<notin> set key" and "34 \<notin> set val"
    and "\<forall>c \<in> set ws1. is_white_space c" and "\<forall>c \<in> set ws2. is_white_space c"
  shows "exec_at s = Some (key, val, rest)"
proof -
  have nq: "\<forall>x \<in> set key. x \<noteq> 34" "\<forall>x \<in> set val. x \<noteq> 34"
    using assms(3,4) by auto
  have nw: "\<not> is_white_space 58" "\<not> is_white_space 34"
    by (simp_all add: is_white_space_def is_line_terminator_def)
  let ?r1 = "ws1 @ [58] @ ws2 @ [34] @ val @ [34] @ rest"
  let ?r2 = "ws2 @ [34] @ val @ [34] @ rest"
  have k1: "takeWhile (\<lambda>x. x \<noteq> 34) (key @ 34 # ?r1) = key"
    and k2: "dropWhile (\<lambda>x. x \<noteq> 34) (key @ 34 # ?r1) = 34 # ?r1"
    using nq(1) by (simp_all add: takeWhile_append2 dropWhile_append2)
  have w1: "dropWhile is_white_space ?r1 = 58 # ?r2"
    using assms(5) nw(1) by (simp add: dropWhile_append2)
  have w2: "dropWhile is_white_space ?r2 = 34 # val @ [34] @ rest"
    using assms(6) nw(2) by (simp add: dropWhile_append2)
  have v1: "takeWhile (\<lambda>x. x \<noteq> 34) (val @ [34] @ rest) = val"
    and v2: "dropWhile (\<lambda>x. x \<noteq> 34) (val @ [34] @ rest) = 34 # rest"
    using nq(2) by (simp_all add: takeWhile_append2 dropWhile_append2)
  have s: "s = 34 # key @ 34 # ?r1"
    using assms(1) by simp
  show ?thesis
    unfolding exec_at_def s list.case Let_def k1 k2 list.sel w1 w2 v1 v2
    using assms(2) by simp
qed

lemma exec_at_is_the_pattern:
  "(\<exists>key val. exec_at s = Some (key, val, rest)) \<longleftrightarrow> (\<exists>p. s = p @ rest \<and> p \<in> lang SCAN_PATTERN)"
proof
  assume "\<exists>key val. exec_at s = Some (key, val, rest)"
  then obtain key val where "exec_at s = Some (key, val, rest)"
    by blast
  from exec_at_shape [OF this] obtain ws1 ws2 where
    sh: "s = js ''\"'' @ key @ js ''\"'' @ ws1 @ js '':'' @ ws2 @ js ''\"'' @ val @ js ''\"'' @ rest"
      "key \<noteq> []" "34 \<notin> set key" "34 \<notin> set val"
      "\<forall>c \<in> set ws1. is_white_space c" "\<forall>c \<in> set ws2. is_white_space c"
    by blast
  let ?p = "[34] @ key @ [34] @ ws1 @ [58] @ ws2 @ [34] @ val @ [34]"
  from sh(1) have "s = ?p @ rest"
    by simp
  moreover have "?p \<in> lang SCAN_PATTERN"
  proof -
    have nq: "\<forall>x \<in> set key. x \<noteq> 34" "\<forall>x \<in> set val. x \<noteq> 34"
      using sh(3,4) by auto
    have "val @ [34] \<in> conc {s. \<forall>x \<in> set s. x \<noteq> 34} {[34]}"
      unfolding conc_iff using nq(2) by simp
    then have "[34] @ val @ [34] \<in> conc {[34]} (conc {s. \<forall>x \<in> set s. x \<noteq> 34} {[34]})"
      unfolding conc_iff [of _ "{[34]}"] by simp
    then have "ws2 @ [34] @ val @ [34] \<in> conc {s. \<forall>x \<in> set s. is_white_space x}
        (conc {[34]} (conc {s. \<forall>x \<in> set s. x \<noteq> 34} {[34]}))"
      unfolding conc_iff [of _ "{s. \<forall>x \<in> set s. is_white_space x}"] using sh(6) by blast
    then have "[58] @ ws2 @ [34] @ val @ [34] \<in> conc {[58]} (conc {s. \<forall>x \<in> set s. is_white_space x}
        (conc {[34]} (conc {s. \<forall>x \<in> set s. x \<noteq> 34} {[34]})))"
      unfolding conc_iff [of _ "{[58]}"] by simp
    then have "ws1 @ [58] @ ws2 @ [34] @ val @ [34] \<in> conc {s. \<forall>x \<in> set s. is_white_space x}
        (conc {[58]} (conc {s. \<forall>x \<in> set s. is_white_space x}
        (conc {[34]} (conc {s. \<forall>x \<in> set s. x \<noteq> 34} {[34]}))))"
      unfolding conc_iff [of _ "{s. \<forall>x \<in> set s. is_white_space x}"] using sh(5) by blast
    then have "[34] @ ws1 @ [58] @ ws2 @ [34] @ val @ [34] \<in> conc {[34]} (conc {s. \<forall>x \<in> set s. is_white_space x}
        (conc {[58]} (conc {s. \<forall>x \<in> set s. is_white_space x}
        (conc {[34]} (conc {s. \<forall>x \<in> set s. x \<noteq> 34} {[34]})))))"
      unfolding conc_iff [of _ "{[34]}"] by simp
    then have "key @ [34] @ ws1 @ [58] @ ws2 @ [34] @ val @ [34] \<in>
        conc {s. s \<noteq> [] \<and> (\<forall>x \<in> set s. x \<noteq> 34)} (conc {[34]} (conc {s. \<forall>x \<in> set s. is_white_space x}
        (conc {[58]} (conc {s. \<forall>x \<in> set s. is_white_space x}
        (conc {[34]} (conc {s. \<forall>x \<in> set s. x \<noteq> 34} {[34]}))))))"
      unfolding conc_iff [of _ "{s. s \<noteq> [] \<and> (\<forall>x \<in> set s. x \<noteq> 34)}"] using sh(2) nq(1) by blast
    then show ?thesis
      unfolding lang_SCAN_PATTERN conc_iff [of _ "{[34]}"] by simp
  qed
  ultimately show "\<exists>p. s = p @ rest \<and> p \<in> lang SCAN_PATTERN"
    by blast
next
  assume "\<exists>p. s = p @ rest \<and> p \<in> lang SCAN_PATTERN"
  then obtain p where p: "s = p @ rest" "p \<in> lang SCAN_PATTERN"
    by blast
  from p(2) obtain key ws1 ws2 val where
    d: "p = [34] @ key @ [34] @ ws1 @ [58] @ ws2 @ [34] @ val @ [34]"
      "key \<noteq> []" "\<forall>x \<in> set key. x \<noteq> 34" "\<forall>x \<in> set val. x \<noteq> 34"
      "\<forall>c \<in> set ws1. is_white_space c" "\<forall>c \<in> set ws2. is_white_space c"
    unfolding lang_SCAN_PATTERN conc_iff by auto
  from d(3,4) have "34 \<notin> set key" "34 \<notin> set val"
    by auto
  with p(1) d have "exec_at s = Some (key, val, rest)"
    by (intro exec_at_complete [where ?ws1.0 = ws1 and ?ws2.0 = ws2]) simp_all
  then show "\<exists>key val. exec_at s = Some (key, val, rest)"
    by blast
qed







text \<open>
  The \<^verbatim>\<open>in\<close> operator also finds the names an object inherits: a pair whose key is
  \<open>toString\<close>, anywhere in the manifest, is recorded as a direct dependency.
\<close>

lemma inherited_key_is_recorded:
  "parseDepsFromDocument sample_runtime (manifest_document [INHERITED_KEY_MANIFEST]) =
     ([\<lparr>entry_name = js ''toString'', entry_version = js ''x'', entry_range = ((0, 46), (0, 46))\<rparr>],
      [])"
  by (simp add: parseDepsFromDocument_def getText_def sample_simps exec_at_def
      is_white_space_def is_line_terminator_def or_empty_def make_entry_def positionAt_def
      lineAt_end_def)


section \<open>Painting the labels\<close>

lemma upsert_keys:
  "map fst (upsert k r g) = (if k \<in> set (map fst g) then map fst g else map fst g @ [k])"
  by (induction g) (force split: if_splits)+

lemma upsert_map_of:
  "map_of (upsert k r g) k' =
     (if k' = k then Some ((case map_of g k of None \<Rightarrow> [] | Some rs \<Rightarrow> rs) @ [r])
      else map_of g k')"
  by (induction g) auto

lemma group_keys:
  "distinct (map fst g) \<Longrightarrow>
     distinct (map fst (group_by_size pairs g))
     \<and> set (map fst (group_by_size pairs g)) = set (map fst g) \<union> fst ` set pairs"
proof (induction pairs arbitrary: g)
  case Nil
  then show ?case by simp
next
  case (Cons p pairs)
  obtain k r where p: "p = (k, r)" by (cases p)
  from Cons.prems have "distinct (map fst (upsert k r g))"
    by (simp add: upsert_keys)
  from Cons.IH [OF this] p show ?case
    by (auto simp: upsert_keys split: if_splits)
qed

lemma group_map_of:
  "map_of (group_by_size pairs g) k =
     (if k \<in> set (map fst g) \<union> fst ` set pairs
      then Some ((case map_of g k of None \<Rightarrow> [] | Some rs \<Rightarrow> rs) @ anchors_of pairs k)
      else None)"
proof (induction pairs arbitrary: g)
  case Nil
  show ?case
    by (auto simp: anchors_of_def map_of_eq_None_iff split: option.splits)
next
  case (Cons p pairs)
  obtain k' r where p: "p = (k', r)" by (cases p)
  show ?case
    unfolding p group_by_size.simps Cons.IH
    by (auto simp: upsert_keys upsert_map_of anchors_of_def map_of_eq_None_iff image_iff
        split: option.splits)
qed

lemma groups_are_anchor_sets:
  assumes "(k, rs) \<in> set (group_by_size pairs [])"
  shows "rs = anchors_of pairs k \<and> k \<in> fst ` set pairs"
proof -
  have d: "distinct (map fst (group_by_size pairs []))"
    using group_keys [of "[]" pairs] by simp
  with assms have "map_of (group_by_size pairs []) k = Some rs"
    by simp
  then show ?thesis
    by (simp add: group_map_of split: if_splits)
qed


lemma getDecorationType_props:
  assumes "well_formed st" and "getDecorationType k st = (t, st')"
  shows "well_formed st' \<and> map_of (decorationTypeCache st') k = Some t
    \<and> sizeCache st' = sizeCache st
    \<and> (\<exists>ext. decorationTypeCache st' = decorationTypeCache st @ ext \<and> set (map fst ext) \<subseteq> {k})
    \<and> (\<forall>k'. map_of (decorationTypeCache st) k' \<noteq> None \<longrightarrow>
          map_of (decorationTypeCache st') k' = map_of (decorationTypeCache st) k')"
proof (cases "map_of (decorationTypeCache st) k")
  case None
  then have nk: "k \<notin> fst ` set (decorationTypeCache st)"
    by (simp add: map_of_eq_None_iff)
  from None assms(2) have t: "t = types_created st"
    and st': "st' = st\<lparr>decorationTypeCache := decorationTypeCache st @ [(k, t)],
                  subscriptions := subscriptions st @ [t], types_created := Suc t\<rparr>"
    by (auto simp: getDecorationType_def Let_def)
  from assms(1) have fresh: "t \<notin> snd ` set (decorationTypeCache st)"
    unfolding t well_formed_def by auto
  have wf: "well_formed st'"
    using assms(1) nk fresh unfolding st' well_formed_def t by (auto simp: less_Suc_eq)
  have look: "map_of (decorationTypeCache st') k = Some t"
    using None unfolding st' by (simp add: map_add_def map_of_append)
  have keep: "\<forall>k'. map_of (decorationTypeCache st) k' \<noteq> None \<longrightarrow>
          map_of (decorationTypeCache st') k' = map_of (decorationTypeCache st) k'"
    unfolding st' by (auto simp: map_of_append map_add_def split: option.splits)
  from wf look keep show ?thesis
    unfolding st' by simp
next
  case (Some t0)
  with assms(2) have "t = t0" "st' = st"
    by (auto simp: getDecorationType_def)
  with Some assms(1) show ?thesis
    by simp
qed

lemma setDecorations_fields:
  "document (setDecorations ed t rs) = document ed"
  "decorations (setDecorations ed t rs) = (decorations ed)(t := rs)"
  by (simp_all add: setDecorations_def)


lemma distinct_snd_inj:
  assumes "distinct (map snd c)" and "map_of c k1 = Some t" and "map_of c k2 = Some t"
  shows "k1 = k2"
proof -
  from assms(1) have inj: "inj_on snd (set c)"
    by (simp add: distinct_map)
  from assms(2,3) have "(k1, t) \<in> set c" "(k2, t) \<in> set c"
    by (auto dest: map_of_SomeD)
  with inj have "(k1, t) = (k2, t)"
    using inj_onD [of snd "set c" "(k1, t)" "(k2, t)"] by simp
  then show ?thesis
    by simp
qed

lemma type_of_inj:
  assumes "well_formed st" and "map_of (decorationTypeCache st) k1 \<noteq> None"
    and "map_of (decorationTypeCache st) k2 \<noteq> None"
    and "type_of (decorationTypeCache st) k1 = type_of (decorationTypeCache st) k2"
  shows "k1 = k2"
proof -
  from assms(2,3) obtain t1 t2 where
    m: "map_of (decorationTypeCache st) k1 = Some t1" "map_of (decorationTypeCache st) k2 = Some t2"
    by auto
  with assms(4) have "t1 = t2"
    by (simp add: type_of_def)
  with m assms(1) show ?thesis
    unfolding well_formed_def by (auto intro: distinct_snd_inj)
qed

lemma paint_groups_props:
  assumes "well_formed st" and "distinct (map fst gs)"
    and "paint_groups gs st ed = (st', ed', evs)"
  shows "well_formed st' \<and> sizeCache st' = sizeCache st \<and> document ed' = document ed
    \<and> (\<forall>k. map_of (decorationTypeCache st) k \<noteq> None \<longrightarrow>
          map_of (decorationTypeCache st') k = map_of (decorationTypeCache st) k)
    \<and> (\<forall>k. map_of (decorationTypeCache st') k \<noteq> None \<longleftrightarrow>
          map_of (decorationTypeCache st) k \<noteq> None \<or> k \<in> set (map fst gs))
    \<and> evs = map (\<lambda>(k, rs). SetDecorations (type_of (decorationTypeCache st') k) rs) gs
    \<and> (\<forall>(k, rs) \<in> set gs. decorations ed' (type_of (decorationTypeCache st') k) = rs)
    \<and> (\<forall>t. t \<notin> type_of (decorationTypeCache st') ` set (map fst gs) \<longrightarrow>
          decorations ed' t = decorations ed t)"
  using assms
proof (induction gs arbitrary: st ed st' ed' evs)
  case Nil
  then show ?case by simp
next
  case (Cons g gs)
  obtain k rs where g: "g = (k, rs)" by (cases g)
  obtain t st1 where gd: "getDecorationType k st = (t, st1)"
    by (cases "getDecorationType k st")
  obtain st2 ed2 evs2 where pg: "paint_groups gs st1 (setDecorations ed t rs) = (st2, ed2, evs2)"
    by (cases "paint_groups gs st1 (setDecorations ed t rs)")
  from Cons.prems(3) g gd pg have res: "st' = st2" "ed' = ed2" "evs = SetDecorations t rs # evs2"
    by simp_all
  note gp = getDecorationType_props [OF Cons.prems(1) gd]
  note wf1 = gp [THEN conjunct1] and look1 = gp [THEN conjunct2, THEN conjunct1] and sc1 = gp [THEN conjunct2, THEN conjunct2, THEN conjunct1] and ext1 = gp [THEN conjunct2, THEN conjunct2, THEN conjunct2, THEN conjunct1] and keep1 = gp [THEN conjunct2, THEN conjunct2, THEN conjunct2, THEN conjunct2]
  from Cons.prems(2) g have dgs: "distinct (map fst gs)" and kn: "k \<notin> set (map fst gs)"
    by simp_all
  note ih = Cons.IH [OF wf1 dgs pg]
  note wf2 = ih [THEN conjunct1] and sc2 = ih [THEN conjunct2, THEN conjunct1] and doc2 = ih [THEN conjunct2, THEN conjunct2, THEN conjunct1] and keep2 = ih [THEN conjunct2, THEN conjunct2, THEN conjunct2, THEN conjunct1] and dom2 = ih [THEN conjunct2, THEN conjunct2, THEN conjunct2, THEN conjunct2, THEN conjunct1]
    and evs2 = ih [THEN conjunct2, THEN conjunct2, THEN conjunct2, THEN conjunct2, THEN conjunct2, THEN conjunct1] and painted2 = ih [THEN conjunct2, THEN conjunct2, THEN conjunct2, THEN conjunct2, THEN conjunct2, THEN conjunct2, THEN conjunct1] and other2 = ih [THEN conjunct2, THEN conjunct2, THEN conjunct2, THEN conjunct2, THEN conjunct2, THEN conjunct2, THEN conjunct2]
  from look1 keep2 have look2: "map_of (decorationTypeCache st2) k = Some t"
    by simp
  then have tk: "type_of (decorationTypeCache st2) k = t"
    by (simp add: type_of_def)
  have dom1: "map_of (decorationTypeCache st1) k' \<noteq> None \<longleftrightarrow>
      map_of (decorationTypeCache st) k' \<noteq> None \<or> k' = k" for k'
  proof
    assume a: "map_of (decorationTypeCache st1) k' \<noteq> None"
    from ext1 obtain ext where e: "decorationTypeCache st1 = decorationTypeCache st @ ext"
      "set (map fst ext) \<subseteq> {k}" by blast
    from a have "k' \<in> fst ` set (decorationTypeCache st1)"
      by (simp add: map_of_eq_None_iff)
    with e have "k' \<in> fst ` set (decorationTypeCache st) \<or> k' = k"
      by auto
    then show "map_of (decorationTypeCache st) k' \<noteq> None \<or> k' = k"
      by (simp add: map_of_eq_None_iff)
  next
    assume "map_of (decorationTypeCache st) k' \<noteq> None \<or> k' = k"
    then show "map_of (decorationTypeCache st1) k' \<noteq> None"
    proof
      assume "map_of (decorationTypeCache st) k' \<noteq> None"
      with keep1 show ?thesis by simp
    next
      assume "k' = k"
      with look1 show ?thesis by simp
    qed
  qed
  have notin: "t \<notin> type_of (decorationTypeCache st2) ` set (map fst gs)"
  proof
    assume "t \<in> type_of (decorationTypeCache st2) ` set (map fst gs)"
    then obtain k2 where k2: "k2 \<in> set (map fst gs)" "type_of (decorationTypeCache st2) k2 = t"
      by auto
    from k2(1) dom2 have "map_of (decorationTypeCache st2) k2 \<noteq> None"
      by blast
    moreover from look2 have "map_of (decorationTypeCache st2) k \<noteq> None"
      by simp
    ultimately have "k2 = k"
      using type_of_inj [OF wf2, of k2 k] k2(2) tk by simp
    with k2(1) kn show False by simp
  qed
  have c1: "well_formed st'" "sizeCache st' = sizeCache st" "document ed' = document ed"
    using wf2 sc1 sc2 doc2 res by (simp_all add: setDecorations_fields)
  have c2: "\<forall>k. map_of (decorationTypeCache st) k \<noteq> None \<longrightarrow>
          map_of (decorationTypeCache st') k = map_of (decorationTypeCache st) k"
  proof (intro allI impI)
    fix x assume x: "map_of (decorationTypeCache st) x \<noteq> None"
    with keep1 have e1: "map_of (decorationTypeCache st1) x = map_of (decorationTypeCache st) x"
      by blast
    with x keep2 have "map_of (decorationTypeCache st2) x = map_of (decorationTypeCache st1) x"
      by simp
    with e1 res show "map_of (decorationTypeCache st') x = map_of (decorationTypeCache st) x"
      by simp
  qed
  have c3: "\<forall>k'. map_of (decorationTypeCache st') k' \<noteq> None \<longleftrightarrow>
          map_of (decorationTypeCache st) k' \<noteq> None \<or> k' \<in> set (map fst (g # gs))"
  proof (intro allI)
    fix x
    from dom2 have "map_of (decorationTypeCache st2) x \<noteq> None \<longleftrightarrow>
          map_of (decorationTypeCache st1) x \<noteq> None \<or> x \<in> set (map fst gs)"
      by (rule spec)
    with dom1 [of x] res g
    show "map_of (decorationTypeCache st') x \<noteq> None \<longleftrightarrow>
          map_of (decorationTypeCache st) x \<noteq> None \<or> x \<in> set (map fst (g # gs))"
      by (simp only: list.map fst_conv set_simps insert_iff) blast
  qed
  have c4: "evs = map (\<lambda>(k, rs). SetDecorations (type_of (decorationTypeCache st') k) rs) (g # gs)"
    using res evs2 tk g by simp
  have here: "decorations ed2 t = rs"
    using other2 notin by (simp add: setDecorations_fields)
  have c5: "\<forall>(k, rs) \<in> set (g # gs). decorations ed' (type_of (decorationTypeCache st') k) = rs"
    using painted2 here tk res g by auto
  have c6: "\<forall>u. u \<notin> type_of (decorationTypeCache st') ` set (map fst (g # gs)) \<longrightarrow>
          decorations ed' u = decorations ed u"
  proof (intro allI impI)
    fix u assume u: "u \<notin> type_of (decorationTypeCache st') ` set (map fst (g # gs))"
    with res g tk have ut: "u \<noteq> t" and "u \<notin> type_of (decorationTypeCache st2) ` set (map fst gs)"
      by auto
    with other2 have "decorations ed2 u = decorations (setDecorations ed t rs) u"
      by blast
    with ut res show "decorations ed' u = decorations ed u"
      by (simp add: setDecorations_fields)
  qed
  from c1 c2 c3 c4 c5 c6 show ?case
    by (intro conjI)
qed


lemma clear_unused_props:
  "clear_unused ts used ed = (ed', evs) \<Longrightarrow>
     document ed' = document ed
     \<and> evs = map (\<lambda>(k, t). SetDecorations t []) (filter (\<lambda>(k, t). k \<notin> set used) ts)
     \<and> (\<forall>t. decorations ed' t =
           (if \<exists>k. (k, t) \<in> set ts \<and> k \<notin> set used then [] else decorations ed t))"
proof (induction ts arbitrary: ed ed' evs)
  case Nil
  then show ?case by simp
next
  case (Cons p ts)
  obtain k t where p: "p = (k, t)" by (cases p)
  show ?case
  proof (cases "k \<in> set used")
    case True
    with Cons.prems p have "clear_unused ts used ed = (ed', evs)"
      by simp
    from Cons.IH [OF this] True p show ?thesis
      by auto
  next
    case False
    obtain ed2 evs2 where c: "clear_unused ts used (setDecorations ed t []) = (ed2, evs2)"
      by (cases "clear_unused ts used (setDecorations ed t [])")
    with Cons.prems p False have r: "ed' = ed2" "evs = SetDecorations t [] # evs2"
      by simp_all
    from Cons.IH [OF c] False p r show ?thesis
      by (auto simp: setDecorations_fields)
  qed
qed

lemma start_all_length:
  "start_all rt w docDir all c = (outs, c') \<Longrightarrow> length outs = length all"
  by (induction all arbitrary: c outs c') (auto split: prod.splits)


lemma updateDecorations_well_formed:
  assumes "well_formed st"
  shows "well_formed (pass_state (updateDecorations rt w st ed))"
proof (cases "config_enabled w \<and> isPackageJson rt (document ed)")
  case False
  with assms show ?thesis
    by (auto simp: updateDecorations_def)
next
  case True
  obtain deps devDeps where parse: "parseDepsFromDocument rt (document ed) = (deps, devDeps)"
    by (cases "parseDepsFromDocument rt (document ed)")
  show ?thesis
  proof (cases "deps @ devDeps = []")
    case empty: True
    with True parse assms show ?thesis
      by (simp add: updateDecorations_def)
  next
    case nonempty: False
    then have ne: "(deps @ devDeps = []) = False"
      by simp
    obtain outs c1 where sa:
      "start_all rt w (path_dirname rt (fsPath (document ed))) (deps @ devDeps) (sizeCache st)
         = (outs, c1)"
      by (cases "start_all rt w (path_dirname rt (fsPath (document ed))) (deps @ devDeps)
          (sizeCache st)")
    let ?st1 = "st\<lparr>sizeCache := foldl (\<lambda>c out. settle out c) c1 outs\<rparr>"
    from assms have wf1: "well_formed ?st1"
      by (simp add: well_formed_def)
    show ?thesis
    proof (cases "Raised \<in> set outs")
      case raised: True
      with True parse sa wf1 show ?thesis
        by (simp add: updateDecorations_def Let_def ne del: append_is_Nil_conv)
    next
      case fulfilled: False
      let ?groups = "group_by_size (zip (map text_of outs) (map entry_range (deps @ devDeps))) []"
      obtain st2 ed2 painted where pg: "paint_groups ?groups ?st1 ed = (st2, ed2, painted)"
        by (cases "paint_groups ?groups ?st1 ed")
      obtain ed3 cleared where cu:
        "clear_unused (decorationTypeCache st2) (map fst ?groups) ed2 = (ed3, cleared)"
        by (cases "clear_unused (decorationTypeCache st2) (map fst ?groups) ed2")
      have d: "distinct (map fst ?groups)"
        using group_keys [of "[]"] by simp
      from paint_groups_props [OF wf1 d pg] have "well_formed st2"
        by (rule conjunct1)
      with True parse sa fulfilled pg cu show ?thesis
        by (simp add: updateDecorations_def Let_def ne del: append_is_Nil_conv)
    qed
  qed
qed

lemma deactivate_well_formed: "well_formed (deactivate st)"
  by (simp add: well_formed_def deactivate_def)

lemma getDirSize_events:
  "\<forall>e \<in> set (fst (getDirSize rt dirPath listing)). \<not> is_SetDecorations e"
  "\<forall>e \<in> set (fst (dir_entries rt dirPath ents acc)). \<not> is_SetDecorations e"
  by (induction rt dirPath listing and rt dirPath ents acc rule: getDirSize_dir_entries.induct)
    (auto split: prod.splits option.splits)

lemma resolve_call_events:
  "\<forall>e \<in> set (events_of (fst (resolve_call rt w docDir c d))). \<not> is_SetDecorations e"
proof (cases "isFileDependency (entry_version d)")
  case True
  then show ?thesis
    using getDirSize_events(1) [of rt "install_path rt docDir (entry_name d)"]
    by (auto simp: resolve_call_def getNodeModulesPackageSize_call_def Let_def
        split: option.splits stats.splits prod.splits) (metis fst_conv)+
next
  case False
  then show ?thesis
    by (auto simp: resolve_call_def fetchSize_call_def Let_def split: option.splits prod.splits)
qed

lemma start_all_events:
  "\<forall>e \<in> set (concat (map events_of (fst (start_all rt w docDir all c)))). \<not> is_SetDecorations e"
proof (induction all arbitrary: c)
  case Nil
  show ?case by simp
next
  case (Cons d all)
  obtain out c' where r: "resolve_call rt w docDir c d = (out, c')"
    by (cases "resolve_call rt w docDir c d")
  with resolve_call_events [of rt w docDir c d] have "\<forall>e \<in> set (events_of out). \<not> is_SetDecorations e"
    by simp
  with Cons.IH [of c'] r show ?case
    by (auto split: prod.splits)
qed

text \<open>
  C7 (as the code has it). A pass over a manifest view that finds at least one entry, and
  in which no resolution throws, ends with one \<open>setDecorations\<close> call per distinct label
  of the pass, on the decoration type of that label and with the anchors of exactly the
  entries that have the label, followed by one call with no anchors for every cached
  decoration type whose label does not occur in the pass; the resolution itself calls
  \<open>setDecorations\<close> for nothing. Afterwards every cached
  decoration type is painted at the anchors of the entries of the pass that have its
  label, so at none when the label is stale. A pass whose parse yields no entry returns
  right after parsing: it calls \<open>setDecorations\<close> for nothing and leaves the editor as
  it was.
\<close>

theorem labels_grouped_and_stale_cleared:
  assumes en: "config_enabled w" and pj: "isPackageJson rt (document ed)"
    and parse: "parseDepsFromDocument rt (document ed) = (deps, devDeps)"
    and ne: "deps @ devDeps \<noteq> []"
    and sa: "start_all rt w (path_dirname rt (fsPath (document ed))) (deps @ devDeps) (sizeCache st)
              = (outs, c1)"
    and nr: "Raised \<notin> set outs"
    and wf: "well_formed st"
  shows "\<exists>groups.
      pass_events (updateDecorations rt w st ed) =
        Parse # concat (map events_of outs)
        @ map (\<lambda>(k, rs). SetDecorations
                 (type_of (decorationTypeCache (pass_state (updateDecorations rt w st ed))) k) rs)
            groups
        @ map (\<lambda>(k, t). SetDecorations t [])
            (filter (\<lambda>(k, t). k \<notin> set (map text_of outs))
               (decorationTypeCache (pass_state (updateDecorations rt w st ed))))
      \<and> distinct (map fst groups)
      \<and> set (map fst groups) = set (map text_of outs)
      \<and> (\<forall>(k, rs) \<in> set groups.
            rs = anchors_of (zip (map text_of outs) (map entry_range (deps @ devDeps))) k)
      \<and> (\<forall>(k, t) \<in> set (decorationTypeCache (pass_state (updateDecorations rt w st ed))).
            decorations (pass_editor (updateDecorations rt w st ed)) t =
              anchors_of (zip (map text_of outs) (map entry_range (deps @ devDeps))) k)
      \<and> well_formed (pass_state (updateDecorations rt w st ed))
      \<and> pass_fulfilled (updateDecorations rt w st ed)
      \<and> (\<forall>e \<in> set (concat (map events_of outs)). \<not> is_SetDecorations e)
      \<and> (parseDepsFromDocument rt (document ed0) = ([], []) \<longrightarrow>
           updateDecorations rt w st0 ed0 =
             \<lparr>pass_state = st0, pass_editor = ed0,
              pass_events = (if isPackageJson rt (document ed0) then [Parse] else []),
              pass_fulfilled = True\<rparr>)"
proof -
  have none: "updateDecorations rt w st0 ed0 =
             \<lparr>pass_state = st0, pass_editor = ed0,
              pass_events = (if isPackageJson rt (document ed0) then [Parse] else []),
              pass_fulfilled = True\<rparr>"
    if "parseDepsFromDocument rt (document ed0) = ([], [])"
    using that en by (simp add: updateDecorations_def)
  let ?sizes = "map text_of outs"
  let ?pairs = "zip ?sizes (map entry_range (deps @ devDeps))"
  let ?groups = "group_by_size ?pairs []"
  let ?st1 = "st\<lparr>sizeCache := foldl (\<lambda>c out. settle out c) c1 outs\<rparr>"
  obtain st2 ed2 painted where pg: "paint_groups ?groups ?st1 ed = (st2, ed2, painted)"
    by (cases "paint_groups ?groups ?st1 ed")
  obtain ed3 cleared where cu:
    "clear_unused (decorationTypeCache st2) (map fst ?groups) ed2 = (ed3, cleared)"
    by (cases "clear_unused (decorationTypeCache st2) (map fst ?groups) ed2")
  have run: "updateDecorations rt w st ed =
      \<lparr>pass_state = st2, pass_editor = ed3,
       pass_events = Parse # concat (map events_of outs) @ painted @ cleared,
       pass_fulfilled = True\<rparr>"
  proof -
    from ne have ne': "(deps @ devDeps = []) = False"
      by simp
    from en pj parse sa nr pg cu show ?thesis
      by (simp add: updateDecorations_def Let_def ne' del: append_is_Nil_conv)
  qed
  from sa have len: "length outs = length (deps @ devDeps)"
    by (rule start_all_length)
  then have "map fst ?pairs = ?sizes"
    by (simp add: map_fst_zip del: map_append)
  then have "set (map fst ?pairs) = set ?sizes"
    by (simp only:)
  then have keys: "fst ` set ?pairs = set ?sizes"
    by (simp only: set_map)
  have gk: "distinct (map fst ?groups)" "set (map fst ?groups) = set ?sizes"
    using group_keys [of "[]" ?pairs] keys by simp_all
  have ga: "\<forall>(k, rs) \<in> set ?groups. rs = anchors_of ?pairs k"
  proof (intro ballI)
    fix x assume x: "x \<in> set ?groups"
    obtain k rs where xe: "x = (k, rs)" by (cases x)
    from x show "case x of (k, rs) \<Rightarrow> rs = anchors_of ?pairs k"
      unfolding xe prod.case by (rule groups_are_anchor_sets [THEN conjunct1])
  qed
  from wf have wf1: "well_formed ?st1"
    by (simp add: well_formed_def)
  note pp = paint_groups_props [OF wf1 gk(1) pg]
  note wf2 = pp [THEN conjunct1]
    and dom2 = pp [THEN conjunct2, THEN conjunct2, THEN conjunct2, THEN conjunct2, THEN conjunct1]
    and evs2 = pp [THEN conjunct2, THEN conjunct2, THEN conjunct2, THEN conjunct2, THEN conjunct2,
      THEN conjunct1]
    and painted2 = pp [THEN conjunct2, THEN conjunct2, THEN conjunct2, THEN conjunct2,
      THEN conjunct2, THEN conjunct2, THEN conjunct1]
  note cp = clear_unused_props [OF cu]
  note evs3 = cp [THEN conjunct2, THEN conjunct1] and dec3 = cp [THEN conjunct2, THEN conjunct2]
  have cleared_eq: "cleared = map (\<lambda>(k, t). SetDecorations t [])
      (filter (\<lambda>(k, t). k \<notin> set ?sizes) (decorationTypeCache st2))"
    using evs3 gk(2) by simp
  have shown: "decorations ed3 t = anchors_of ?pairs k"
    if kt: "(k, t) \<in> set (decorationTypeCache st2)" for k t
  proof -
    from wf2 have d: "distinct (map fst (decorationTypeCache st2))"
      and ds: "distinct (map snd (decorationTypeCache st2))"
      by (simp_all add: well_formed_def)
    from d kt have mk: "map_of (decorationTypeCache st2) k = Some t"
      by simp
    then have tk: "type_of (decorationTypeCache st2) k = t"
      by (simp add: type_of_def)
    show ?thesis
    proof (cases "k \<in> set ?sizes")
      case True
      with gk(2) obtain rs where g: "(k, rs) \<in> set ?groups"
        by force
      then have rs: "rs = anchors_of ?pairs k"
        by (rule groups_are_anchor_sets [THEN conjunct1])
      from bspec [OF painted2 g] tk have p2: "decorations ed2 t = rs"
        by simp
      have neg: "\<not> (\<exists>k'. (k', t) \<in> set (decorationTypeCache st2) \<and> k' \<notin> set (map fst ?groups))"
      proof
        assume "\<exists>k'. (k', t) \<in> set (decorationTypeCache st2) \<and> k' \<notin> set (map fst ?groups)"
        then obtain k' where k': "(k', t) \<in> set (decorationTypeCache st2)"
          "k' \<notin> set (map fst ?groups)" by blast
        from d k'(1) have "map_of (decorationTypeCache st2) k' = Some t"
          by simp
        from distinct_snd_inj [OF ds this mk] have "k' = k" .
        with k'(2) True gk(2) show False
          by simp
      qed
      from dec3 have "decorations ed3 t =
          (if \<exists>k'. (k', t) \<in> set (decorationTypeCache st2) \<and> k' \<notin> set (map fst ?groups)
           then [] else decorations ed2 t)"
        by (rule spec)
      with neg have "decorations ed3 t = decorations ed2 t"
        by (simp only: if_False)
      with p2 rs show ?thesis
        by simp
    next
      case False
      with gk(2) have "k \<notin> set (map fst ?groups)"
        by simp
      with kt have "\<exists>k'. (k', t) \<in> set (decorationTypeCache st2) \<and> k' \<notin> set (map fst ?groups)"
        by (intro exI [of _ k] conjI)
      moreover from dec3 have "decorations ed3 t =
          (if \<exists>k'. (k', t) \<in> set (decorationTypeCache st2) \<and> k' \<notin> set (map fst ?groups)
           then [] else decorations ed2 t)"
        by (rule spec)
      ultimately have "decorations ed3 t = []"
        by (simp only: if_True)
      moreover from False keys have "anchors_of ?pairs k = []"
        by (auto simp: anchors_of_def filter_empty_conv)
      ultimately show ?thesis
        by simp
    qed
  qed
  have ev: "pass_events (updateDecorations rt w st ed) =
        Parse # concat (map events_of outs)
        @ map (\<lambda>(k, rs). SetDecorations (type_of (decorationTypeCache st2) k) rs) ?groups
        @ map (\<lambda>(k, t). SetDecorations t [])
            (filter (\<lambda>(k, t). k \<notin> set ?sizes) (decorationTypeCache st2))"
    unfolding run using evs2 cleared_eq by simp
  have st: "pass_state (updateDecorations rt w st ed) = st2"
    and ed: "pass_editor (updateDecorations rt w st ed) = ed3"
    and fu: "pass_fulfilled (updateDecorations rt w st ed)"
    unfolding run by simp_all
  show ?thesis
    unfolding st ed
    apply (rule exI [of _ ?groups])
    apply (intro conjI)
    subgoal using ev st by simp
    subgoal by (rule gk(1))
    subgoal by (rule gk(2))
    subgoal by (rule ga)
    subgoal
    proof (intro ballI)
      fix x assume x: "x \<in> set (decorationTypeCache st2)"
      obtain k t where xe: "x = (k, t)" by (cases x)
      from x show "case x of (k, t) \<Rightarrow> decorations ed3 t = anchors_of ?pairs k"
        unfolding xe prod.case by (rule shown)
    qed
    subgoal by (rule wf2)
    subgoal using fu st ed by simp
    subgoal using start_all_events [of rt w "path_dirname rt (fsPath (document ed))"
          "deps @ devDeps" "sizeCache st"] sa by simp
    subgoal using none by blast
    done
qed


lemma well_formed_initial: "well_formed initial_state"
  by (simp add: well_formed_def initial_state_def)

lemma well_formed_painted: "well_formed painted_state"
  by (simp add: well_formed_def painted_state_def)

lemma sample_call_a:
  assumes "c (js ''a@1.0.0'') = None"
  shows "resolve_call sample_runtime sample_world (js ''/proj'') c
       \<lparr>entry_name = js ''a'', entry_version = js ''1.0.0'', entry_range = ((0, 62), (0, 62))\<rparr> =
     (Later (js ''a@1.0.0'') UNKNOWN [Fetch (js ''https://registry.npmjs.org/a/1.0.0'')], c)"
proof -
  have ex: "isExactVersion (js ''1.0.0'')"
    by (simp add: isExactVersion_def EXACT_VERSION_def is_digit_def is_line_terminator_def)
  with assms show ?thesis
    by (simp add: resolve_call_def isFileDependency_def FILE_PROTOCOL_def package_spec_def
        fetchSize_call_def parsePackageSpec_def indexOf_def Let_def NPM_REGISTRY_def
        exact_result_def sample_simps)
qed


lemma empty_manifest_parse:
  "parseDepsFromDocument sample_runtime (manifest_document [EMPTY_MANIFEST]) = ([], [])"
  by (simp add: parseDepsFromDocument_def getText_def sample_simps exec_at_def or_empty_def)

lemma painted_fields:
  "sizeCache painted_state = [js ''lodash@4.17.21'' \<mapsto> js ''1.4 MB'']"
  "decorationTypeCache painted_state = [(js ''1.4 MB'', 0)]"
  "document (painted_editor doc) = doc"
  "decorations (painted_editor doc) = (\<lambda>t. [])(0 := [((0, 37), (0, 37))])"
  by (simp_all add: painted_state_def painted_editor_def)

theorem labels_grouped_and_stale_cleared_witness:
  "config_enabled sample_world
   \<and> isPackageJson sample_runtime (document (painted_editor (manifest_document [DUPLICATE_MANIFEST])))
   \<and> parseDepsFromDocument sample_runtime (document (painted_editor (manifest_document [DUPLICATE_MANIFEST]))) = ([\<lparr>entry_name = js ''a'', entry_version = js ''1.0.0'', entry_range = ((0, 62), (0, 62))\<rparr>, \<lparr>entry_name = js ''a'', entry_version = js ''1.0.0'', entry_range = ((0, 62), (0, 62))\<rparr>], [])
   \<and> [\<lparr>entry_name = js ''a'', entry_version = js ''1.0.0'', entry_range = ((0, 62), (0, 62))\<rparr>, \<lparr>entry_name = js ''a'', entry_version = js ''1.0.0'', entry_range = ((0, 62), (0, 62))\<rparr>] @ [] \<noteq> []
   \<and> start_all sample_runtime sample_world
         (path_dirname sample_runtime (fsPath (document (painted_editor (manifest_document [DUPLICATE_MANIFEST]))))) ([\<lparr>entry_name = js ''a'', entry_version = js ''1.0.0'', entry_range = ((0, 62), (0, 62))\<rparr>, \<lparr>entry_name = js ''a'', entry_version = js ''1.0.0'', entry_range = ((0, 62), (0, 62))\<rparr>] @ [])
         (sizeCache painted_state) = ([Later (js ''a@1.0.0'') UNKNOWN [Fetch (js ''https://registry.npmjs.org/a/1.0.0'')], Later (js ''a@1.0.0'') UNKNOWN [Fetch (js ''https://registry.npmjs.org/a/1.0.0'')]], sizeCache painted_state)
   \<and> Raised \<notin> set [Later (js ''a@1.0.0'') UNKNOWN [Fetch (js ''https://registry.npmjs.org/a/1.0.0'')], Later (js ''a@1.0.0'') UNKNOWN [Fetch (js ''https://registry.npmjs.org/a/1.0.0'')]]
   \<and> well_formed painted_state
   \<and> (\<exists>groups.
      pass_events (updateDecorations sample_runtime sample_world painted_state (painted_editor (manifest_document [DUPLICATE_MANIFEST]))) =
        Parse # concat (map events_of [Later (js ''a@1.0.0'') UNKNOWN [Fetch (js ''https://registry.npmjs.org/a/1.0.0'')], Later (js ''a@1.0.0'') UNKNOWN [Fetch (js ''https://registry.npmjs.org/a/1.0.0'')]])
        @ map (\<lambda>(k, rs). SetDecorations (type_of (decorationTypeCache (pass_state (updateDecorations sample_runtime sample_world painted_state (painted_editor (manifest_document [DUPLICATE_MANIFEST]))))) k) rs)
            groups
        @ map (\<lambda>(k, t). SetDecorations t [])
            (filter (\<lambda>(k, t). k \<notin> set (map text_of [Later (js ''a@1.0.0'') UNKNOWN [Fetch (js ''https://registry.npmjs.org/a/1.0.0'')], Later (js ''a@1.0.0'') UNKNOWN [Fetch (js ''https://registry.npmjs.org/a/1.0.0'')]]))
               (decorationTypeCache (pass_state (updateDecorations sample_runtime sample_world painted_state (painted_editor (manifest_document [DUPLICATE_MANIFEST]))))))
      \<and> distinct (map fst groups)
      \<and> set (map fst groups) = set (map text_of [Later (js ''a@1.0.0'') UNKNOWN [Fetch (js ''https://registry.npmjs.org/a/1.0.0'')], Later (js ''a@1.0.0'') UNKNOWN [Fetch (js ''https://registry.npmjs.org/a/1.0.0'')]])
      \<and> (\<forall>(k, rs) \<in> set groups.
            rs = anchors_of (zip (map text_of [Later (js ''a@1.0.0'') UNKNOWN [Fetch (js ''https://registry.npmjs.org/a/1.0.0'')], Later (js ''a@1.0.0'') UNKNOWN [Fetch (js ''https://registry.npmjs.org/a/1.0.0'')]]) (map entry_range ([\<lparr>entry_name = js ''a'', entry_version = js ''1.0.0'', entry_range = ((0, 62), (0, 62))\<rparr>, \<lparr>entry_name = js ''a'', entry_version = js ''1.0.0'', entry_range = ((0, 62), (0, 62))\<rparr>] @ []))) k)
      \<and> (\<forall>(k, t) \<in> set (decorationTypeCache (pass_state (updateDecorations sample_runtime sample_world painted_state (painted_editor (manifest_document [DUPLICATE_MANIFEST]))))).
            decorations (pass_editor (updateDecorations sample_runtime sample_world painted_state (painted_editor (manifest_document [DUPLICATE_MANIFEST])))) t =
              anchors_of (zip (map text_of [Later (js ''a@1.0.0'') UNKNOWN [Fetch (js ''https://registry.npmjs.org/a/1.0.0'')], Later (js ''a@1.0.0'') UNKNOWN [Fetch (js ''https://registry.npmjs.org/a/1.0.0'')]]) (map entry_range ([\<lparr>entry_name = js ''a'', entry_version = js ''1.0.0'', entry_range = ((0, 62), (0, 62))\<rparr>, \<lparr>entry_name = js ''a'', entry_version = js ''1.0.0'', entry_range = ((0, 62), (0, 62))\<rparr>] @ []))) k)
      \<and> well_formed (pass_state (updateDecorations sample_runtime sample_world painted_state (painted_editor (manifest_document [DUPLICATE_MANIFEST]))))
      \<and> pass_fulfilled (updateDecorations sample_runtime sample_world painted_state (painted_editor (manifest_document [DUPLICATE_MANIFEST])))
      \<and> (\<forall>e \<in> set (concat (map events_of [Later (js ''a@1.0.0'') UNKNOWN [Fetch (js ''https://registry.npmjs.org/a/1.0.0'')], Later (js ''a@1.0.0'') UNKNOWN [Fetch (js ''https://registry.npmjs.org/a/1.0.0'')]])). \<not> is_SetDecorations e)
      \<and> (parseDepsFromDocument sample_runtime (document (painted_editor (manifest_document [EMPTY_MANIFEST]))) = ([], []) \<longrightarrow>
           updateDecorations sample_runtime sample_world painted_state (painted_editor (manifest_document [EMPTY_MANIFEST])) =
             \<lparr>pass_state = painted_state, pass_editor = painted_editor (manifest_document [EMPTY_MANIFEST]),
              pass_events = (if isPackageJson sample_runtime (document (painted_editor (manifest_document [EMPTY_MANIFEST]))) then [Parse] else []),
              pass_fulfilled = True\<rparr>))"
proof -
  let ?e = "\<lparr>entry_name = js ''a'', entry_version = js ''1.0.0'', entry_range = ((0, 62), (0, 62))\<rparr>"
  let ?l = "Later (js ''a@1.0.0'') UNKNOWN [Fetch (js ''https://registry.npmjs.org/a/1.0.0'')]"
  let ?ed = "painted_editor (manifest_document [DUPLICATE_MANIFEST])"
  have h1: "config_enabled sample_world"
    by (rule sample_enabled)
  have h2: "isPackageJson sample_runtime (document ?ed)"
    by (simp only: painted_fields sample_isPackageJson)
  have h3: "parseDepsFromDocument sample_runtime (document ?ed) = ([?e, ?e], [])"
    by (simp only: painted_fields duplicate_parse)
  have h4: "[?e, ?e] @ [] \<noteq> []"
    by simp
  have miss: "sizeCache painted_state (js ''a@1.0.0'') = None"
    by (simp add: painted_fields)
  have h5: "start_all sample_runtime sample_world
         (path_dirname sample_runtime (fsPath (document ?ed))) ([?e, ?e] @ [])
         (sizeCache painted_state) = ([?l, ?l], sizeCache painted_state)"
    unfolding painted_fields(3) sample_dirname append_Nil2 start_all.simps
      sample_call_a [where c = "sizeCache painted_state", OF miss] prod.case ..
  have h6: "Raised \<notin> set [?l, ?l]"
    by simp
  have h7: "well_formed painted_state"
    by (rule well_formed_painted)
  from labels_grouped_and_stale_cleared
    [OF h1 h2 h3 h4 h5 h6 h7, of "painted_editor (manifest_document [EMPTY_MANIFEST])" painted_state]
  have c: "(\<exists>groups.
      pass_events (updateDecorations sample_runtime sample_world painted_state (painted_editor (manifest_document [DUPLICATE_MANIFEST]))) =
        Parse # concat (map events_of [Later (js ''a@1.0.0'') UNKNOWN [Fetch (js ''https://registry.npmjs.org/a/1.0.0'')], Later (js ''a@1.0.0'') UNKNOWN [Fetch (js ''https://registry.npmjs.org/a/1.0.0'')]])
        @ map (\<lambda>(k, rs). SetDecorations (type_of (decorationTypeCache (pass_state (updateDecorations sample_runtime sample_world painted_state (painted_editor (manifest_document [DUPLICATE_MANIFEST]))))) k) rs)
            groups
        @ map (\<lambda>(k, t). SetDecorations t [])
            (filter (\<lambda>(k, t). k \<notin> set (map text_of [Later (js ''a@1.0.0'') UNKNOWN [Fetch (js ''https://registry.npmjs.org/a/1.0.0'')], Later (js ''a@1.0.0'') UNKNOWN [Fetch (js ''https://registry.npmjs.org/a/1.0.0'')]]))
               (decorationTypeCache (pass_state (updateDecorations sample_runtime sample_world painted_state (painted_editor (manifest_document [DUPLICATE_MANIFEST]))))))
      \<and> distinct (map fst groups)
      \<and> set (map fst groups) = set (map text_of [Later (js ''a@1.0.0'') UNKNOWN [Fetch (js ''https://registry.npmjs.org/a/1.0.0'')], Later (js ''a@1.0.0'') UNKNOWN [Fetch (js ''https://registry.npmjs.org/a/1.0.0'')]])
      \<and> (\<forall>(k, rs) \<in> set groups.
            rs = anchors_of (zip (map text_of [Later (js ''a@1.0.0'') UNKNOWN [Fetch (js ''https://registry.npmjs.org/a/1.0.0'')], Later (js ''a@1.0.0'') UNKNOWN [Fetch (js ''https://registry.npmjs.org/a/1.0.0'')]]) (map entry_range ([\<lparr>entry_name = js ''a'', entry_version = js ''1.0.0'', entry_range = ((0, 62), (0, 62))\<rparr>, \<lparr>entry_name = js ''a'', entry_version = js ''1.0.0'', entry_range = ((0, 62), (0, 62))\<rparr>] @ []))) k)
      \<and> (\<forall>(k, t) \<in> set (decorationTypeCache (pass_state (updateDecorations sample_runtime sample_world painted_state (painted_editor (manifest_document [DUPLICATE_MANIFEST]))))).
            decorations (pass_editor (updateDecorations sample_runtime sample_world painted_state (painted_editor (manifest_document [DUPLICATE_MANIFEST])))) t =
              anchors_of (zip (map text_of [Later (js ''a@1.0.0'') UNKNOWN [Fetch (js ''https://registry.npmjs.org/a/1.0.0'')], Later (js ''a@1.0.0'') UNKNOWN [Fetch (js ''https://registry.npmjs.org/a/1.0.0'')]]) (map entry_range ([\<lparr>entry_name = js ''a'', entry_version = js ''1.0.0'', entry_range = ((0, 62), (0, 62))\<rparr>, \<lparr>entry_name = js ''a'', entry_version = js ''1.0.0'', entry_range = ((0, 62), (0, 62))\<rparr>] @ []))) k)
      \<and> well_formed (pass_state (updateDecorations sample_runtime sample_world painted_state (painted_editor (manifest_document [DUPLICATE_MANIFEST]))))
      \<and> pass_fulfilled (updateDecorations sample_runtime sample_world painted_state (painted_editor (manifest_document [DUPLICATE_MANIFEST])))
      \<and> (\<forall>e \<in> set (concat (map events_of [Later (js ''a@1.0.0'') UNKNOWN [Fetch (js ''https://registry.npmjs.org/a/1.0.0'')], Later (js ''a@1.0.0'') UNKNOWN [Fetch (js ''https://registry.npmjs.org/a/1.0.0'')]])). \<not> is_SetDecorations e)
      \<and> (parseDepsFromDocument sample_runtime (document (painted_editor (manifest_document [EMPTY_MANIFEST]))) = ([], []) \<longrightarrow>
           updateDecorations sample_runtime sample_world painted_state (painted_editor (manifest_document [EMPTY_MANIFEST])) =
             \<lparr>pass_state = painted_state, pass_editor = painted_editor (manifest_document [EMPTY_MANIFEST]),
              pass_events = (if isPackageJson sample_runtime (document (painted_editor (manifest_document [EMPTY_MANIFEST]))) then [Parse] else []),
              pass_fulfilled = True\<rparr>))" .
  from h1 h2 h3 h4 h5 h6 h7 c show ?thesis
    by (intro conjI)
qed

text \<open>
  When the manifest has become \<open>{}\<close>, the pass finds no entry and returns before the
  clearing loop: the label \<open>1.4 MB\<close> painted earlier stays where it was.
\<close>

theorem stale_label_lingers_counterexample:
  "parseDepsFromDocument sample_runtime (manifest_document [EMPTY_MANIFEST]) = ([], [])
   \<and> decorationTypeCache painted_state = [(js ''1.4 MB'', 0)]
   \<and> pass_events (updateDecorations sample_runtime sample_world painted_state
         (painted_editor (manifest_document [EMPTY_MANIFEST]))) = [Parse]
   \<and> decorations (pass_editor (updateDecorations sample_runtime sample_world painted_state
         (painted_editor (manifest_document [EMPTY_MANIFEST])))) 0 = [((0, 37), (0, 37))]"
  by (simp add: updateDecorations_def sample_enabled sample_isPackageJson painted_fields
      empty_manifest_parse)

end
